theory Spec2Isabelle
  imports Main
begin

section \<open>Python strings and the standard-library functions the adapters call\<close>

text \<open>
  Strings are character lists, a character being a code point below 256. Exceptions are
  values of \<open>py_error\<close>; a function that can raise returns \<open>py_error + 'a\<close> with \<open>Inl\<close>
  for the exception.
\<close>

datatype py_error = AttributeError | ValueError | IndexError | TypeError

text \<open>\<^verbatim>\<open>s.startswith(p)\<close> and \<^verbatim>\<open>s.endswith(p)\<close>.\<close>

definition startswith :: "string \<Rightarrow> string \<Rightarrow> bool" where
  "startswith s p = (take (length p) s = p)"

definition endswith :: "string \<Rightarrow> string \<Rightarrow> bool" where
  "endswith s p = (length p \<le> length s \<and> drop (length s - length p) s = p)"

text \<open>\<^verbatim>\<open>sub in s\<close> for strings: \<open>sub\<close> occurs in \<open>s\<close> at some position.\<close>

fun str_contains :: "string \<Rightarrow> string \<Rightarrow> bool" where
  "str_contains [] sub = (sub = [])"
| "str_contains (c # cs) sub = (startswith (c # cs) sub \<or> str_contains cs sub)"

text \<open>
  \<^verbatim>\<open>s.split(sep)\<close> for a one-character separator: the result is never empty (the first
  case of the \<open>case\<close> below is never taken), and the empty string splits into one
  empty field.
\<close>

fun split_on :: "char \<Rightarrow> string \<Rightarrow> string list" where
  "split_on sep [] = [[]]"
| "split_on sep (c # cs) =
     (case split_on sep cs of
        [] \<Rightarrow> [[c]]
      | w # ws \<Rightarrow> if c = sep then [] # w # ws else (c # w) # ws)"

text \<open>\<^verbatim>\<open>sep.join(xs)\<close>.\<close>

fun str_join :: "string \<Rightarrow> string list \<Rightarrow> string" where
  "str_join sep [] = []"
| "str_join sep [x] = x"
| "str_join sep (x # y # ys) = x @ sep @ str_join sep (y # ys)"

text \<open>\<^verbatim>\<open>s.rfind(c)\<close> for a character: the last index of \<open>c\<close>, or \<open>-1\<close>.\<close>

definition rfind :: "string \<Rightarrow> char \<Rightarrow> int" where
  "rfind s c =
     (if c \<in> set s
      then int (length s) - 1 - int (length (takeWhile (\<lambda>x. x \<noteq> c) (rev s)))
      else - 1)"

text \<open>\<^verbatim>\<open>s.rstrip('/')\<close>.\<close>

definition rstrip_slash :: "string \<Rightarrow> string" where
  "rstrip_slash s = rev (dropWhile (\<lambda>x. x = CHR ''/'') (rev s))"

text \<open>
  \<^verbatim>\<open>s.lower()\<close> on the letters A to Z; every other character is kept. The result is only
  compared with extensions written in lower-case ASCII letters, which no other character
  lowers to.
\<close>

definition lower_char :: "char \<Rightarrow> char" where
  "lower_char c =
     (case map_of (zip ''ABCDEFGHIJKLMNOPQRSTUVWXYZ'' ''abcdefghijklmnopqrstuvwxyz'') c of
        Some d \<Rightarrow> d
      | None \<Rightarrow> c)"

definition lower :: "string \<Rightarrow> string" where
  "lower s = map lower_char s"

subsection \<open>posixpath\<close>

text \<open>
  \<^verbatim>\<open>os.path.join(a, b)\<close>:
  \<^verbatim>\<open>
    path = a
    if b.startswith('/'): path = b
    elif not path or path.endswith('/'): path += b
    else: path += '/' + b
  \<close>
\<close>

definition path_join :: "string \<Rightarrow> string \<Rightarrow> string" where
  "path_join a b =
     (if startswith b ''/'' then b
      else if a = [] \<or> endswith a ''/'' then a @ b
      else a @ ''/'' @ b)"

text \<open>
  \<^verbatim>\<open>os.path.normpath(path)\<close>: the loop over the components of \<^verbatim>\<open>path.split('/')\<close>
  with the list \<^verbatim>\<open>new_comps\<close> as accumulator.
  \<^verbatim>\<open>
    for comp in comps:
        if comp in ('', '.'): continue
        if (comp != '..' or (not initial_slashes and not new_comps) or
             (new_comps and new_comps[-1] == '..')):
            new_comps.append(comp)
        elif new_comps:
            new_comps.pop()
  \<close>
\<close>

fun normpath_comps :: "nat \<Rightarrow> string list \<Rightarrow> string list \<Rightarrow> string list" where
  "normpath_comps initial_slashes [] new_comps = new_comps"
| "normpath_comps initial_slashes (cmp # comps) new_comps =
     (if cmp = [] \<or> cmp = ''.'' then normpath_comps initial_slashes comps new_comps
      else if cmp \<noteq> ''..'' \<or> (initial_slashes = 0 \<and> new_comps = [])
                \<or> (new_comps \<noteq> [] \<and> last new_comps = ''..'')
      then normpath_comps initial_slashes comps (new_comps @ [cmp])
      else if new_comps \<noteq> [] then normpath_comps initial_slashes comps (butlast new_comps)
      else normpath_comps initial_slashes comps new_comps)"

definition normpath :: "string \<Rightarrow> string" where
  "normpath path =
     (if path = [] then ''.''
      else
        let initial_slashes =
              (if startswith path ''/''
               then (if startswith path ''//'' \<and> \<not> startswith path ''///'' then 2 else 1)
               else (0::nat));
            comps = normpath_comps initial_slashes (split_on CHR ''/'' path) [];
            p = replicate initial_slashes CHR ''/'' @ str_join ''/'' comps
        in if p = [] then ''.'' else p)"

text \<open>
  \<^verbatim>\<open>os.path.abspath(path)\<close>. The working directory that \<^verbatim>\<open>os.getcwd()\<close> returns is the
  parameter \<open>cwd\<close>.
\<close>

definition abspath :: "string \<Rightarrow> string \<Rightarrow> string" where
  "abspath cwd path =
     normpath (if \<not> startswith path ''/'' then path_join cwd path else path)"

text \<open>
  \<^verbatim>\<open>os.path.split(p)\<close>:
  \<^verbatim>\<open>
    i = p.rfind('/') + 1
    head, tail = p[:i], p[i:]
    if head and head != '/'*len(head): head = head.rstrip('/')
  \<close>
\<close>

definition path_split :: "string \<Rightarrow> string \<times> string" where
  "path_split p =
     (let i = nat (rfind p CHR ''/'' + 1);
          head = take i p;
          tail = drop i p
      in (if head \<noteq> [] \<and> head \<noteq> replicate (length head) CHR ''/''
          then rstrip_slash head else head, tail))"

text \<open>
  \<^verbatim>\<open>os.path.splitext(p)\<close>: the extension starts at the last dot of the last component,
  unless only dots precede it there.
\<close>

definition splitext :: "string \<Rightarrow> string \<times> string" where
  "splitext p =
     (let sepIndex = rfind p CHR ''/'';
          dotIndex = rfind p CHR ''.''
      in if dotIndex > sepIndex
            \<and> list_ex (\<lambda>x. x \<noteq> CHR ''.'')
                 (take (nat (dotIndex - (sepIndex + 1))) (drop (nat (sepIndex + 1)) p))
         then (take (nat dotIndex) p, drop (nat dotIndex) p)
         else (p, []))"

subsection \<open>The regular expressions of the scrapers\<close>

text \<open>
  \<^verbatim>\<open>re.search('-->(.*)', line)\<close> finds a match exactly when \<open>line\<close> contains the arrow,
  because the group may be empty.
\<close>

definition re_search_arrow :: "string \<Rightarrow> bool" where
  "re_search_arrow line = str_contains line ''-->''"

text \<open>
  \<^verbatim>\<open>re.search('.*--> (.*)', line)\<close> on a line without a newline: the leading \<^verbatim>\<open>.*\<close> is
  greedy, so the group is the text after the last occurrence of the arrow followed by a
  space; there is no match (\<open>None\<close>) when that text does not occur.
\<close>

fun after_last :: "string \<Rightarrow> string \<Rightarrow> string option" where
  "after_last sub [] = (if sub = [] then Some [] else None)"
| "after_last sub (c # cs) =
     (case after_last sub cs of
        Some g \<Rightarrow> Some g
      | None \<Rightarrow> if startswith (c # cs) sub then Some (drop (length sub) (c # cs)) else None)"

definition re_search_arrow_group :: "string \<Rightarrow> string option" where
  "re_search_arrow_group line = after_last ''--> '' line"

text \<open>
  \<^verbatim>\<open>re.search('\S+/\S+', line)\<close>. A slash is itself a non-space character, so a match
  stays inside one maximal run of non-space characters (a token) and needs a slash there
  that is neither the first nor the last character. Both \<^verbatim>\<open>\S+\<close> are greedy and the
  search takes the leftmost start, so the match is the whole of the first such token.
  Of the code points below 256 the whitespace class \<^verbatim>\<open>\s\<close> of a string pattern holds
  9 to 13, 28 to 32, 133 and 160.
\<close>

definition is_space :: "char \<Rightarrow> bool" where
  "is_space c =
     (c \<in> set [CHR 0x09, CHR 0x0A, CHR 0x0B, CHR 0x0C, CHR 0x0D,
                CHR 0x1C, CHR 0x1D, CHR 0x1E, CHR 0x1F, CHR 0x20, CHR 0x85, CHR 0xA0])"

fun tokens_from :: "string \<Rightarrow> string \<Rightarrow> string list" where
  "tokens_from cur [] = (if cur = [] then [] else [cur])"
| "tokens_from cur (c # cs) =
     (if is_space c then (if cur = [] then tokens_from [] cs else cur # tokens_from [] cs)
      else tokens_from (cur @ [c]) cs)"

definition tokens :: "string \<Rightarrow> string list" where
  "tokens line = tokens_from [] line"

definition path_token :: "string \<Rightarrow> bool" where
  "path_token t = (CHR ''/'' \<in> set (butlast (tl t)))"

definition re_search_path :: "string \<Rightarrow> string option" where
  "re_search_path line = find path_token (tokens line)"

subsection \<open>nipype.utils.filemanip\<close>

text \<open>
  Modelled from the spec: \<^verbatim>\<open>split_filename\<close> of \<^verbatim>\<open>nipype.utils.filemanip\<close>, the
  filename utility that ``splits a path into directory/basename/extension''. It is
  imported by both source files and is not part of them. The two-part extensions
  \<^verbatim>\<open>.nii.gz\<close> and \<^verbatim>\<open>.tar.gz\<close> are kept whole (compared case-insensitively, and only when
  the file name is longer than the extension); otherwise the extension is that of
  \<^verbatim>\<open>os.path.splitext\<close>.
\<close>

definition special_ext :: "string \<Rightarrow> string \<Rightarrow> bool" where
  "special_ext fname ext =
     (length fname > length ext
      \<and> lower (drop (length fname - length ext) fname) = lower ext)"

definition split_filename :: "string \<Rightarrow> string \<times> string \<times> string" where
  "split_filename path =
     (let (pth, fname) = path_split path in
      case find (special_ext fname) [''.nii.gz'', ''.tar.gz''] of
        Some ext \<Rightarrow>
          (pth, take (length fname - length ext) fname, drop (length fname - length ext) fname)
      | None \<Rightarrow> (let (name, ext) = splitext fname in (pth, name, ext)))"

section \<open>Dcm2nii: the stdout scraper\<close>

text \<open>
  The local variables of \<^verbatim>\<open>Dcm2nii._parse_stdout\<close>. \<open>last_added_file\<close> is \<open>None\<close> until a
  file has been added.
\<close>

record dcm2nii_state =
  files :: "string list"
  reoriented_files :: "string list"
  reoriented_and_cropped_files :: "string list"
  bvecs :: "string list"
  bvals :: "string list"
  skip :: bool
  last_added_file :: "string option"

definition dcm2nii_init :: dcm2nii_state where
  "dcm2nii_init =
     \<lparr>files = [], reoriented_files = [], reoriented_and_cropped_files = [],
      bvecs = [], bvals = [], skip = False, last_added_file = None\<rparr>"

text \<open>Python truth of a value that is \<^verbatim>\<open>None\<close> or a string.\<close>

definition truthy :: "string option \<Rightarrow> bool" where
  "truthy v = (case v of None \<Rightarrow> False | Some s \<Rightarrow> s \<noteq> [])"

text \<open>
  The output directory: the input \<^verbatim>\<open>output_dir\<close> when it is defined, else
  \<^verbatim>\<open>_gen_filename('output_dir')\<close>, which is \<^verbatim>\<open>os.getcwd()\<close>.
\<close>

definition gen_output_dir :: "string \<Rightarrow> string option \<Rightarrow> string" where
  "gen_output_dir cwd output_dir = (case output_dir of Some d \<Rightarrow> d | None \<Rightarrow> cwd)"

text \<open>
  The first \<^verbatim>\<open>if/elif\<close> chain of the loop body (source lines 67 to 85): it sets \<^verbatim>\<open>file\<close>,
  or appends the companion gradient files, or raises when the extraction pattern finds
  no match and \<^verbatim>\<open>.groups()\<close> is called on \<^verbatim>\<open>None\<close>.
\<close>

definition dcm2nii_file ::
  "string \<Rightarrow> string option \<Rightarrow> dcm2nii_state \<Rightarrow> string \<Rightarrow> py_error + (string option \<times> dcm2nii_state)"
where
  "dcm2nii_file cwd output_dir s line =
     (if startswith line ''Saving '' then Inr (Some (drop (length ''Saving '') line), s)
      else if startswith line ''GZip...'' then
        Inr (Some (abspath cwd (path_join (gen_output_dir cwd output_dir)
                                  (drop (length ''GZip...'') line))), s)
      else if startswith line ''Number of diffusion directions '' then
        (if truthy (last_added_file s) then
           (let (base, filename, ext) = split_filename (the (last_added_file s))
            in Inr (None, s\<lparr>bvecs := bvecs s @ [path_join base (filename @ ''.bvec'')],
                             bvals := bvals s @ [path_join base (filename @ ''.bval'')]\<rparr>))
         else Inr (None, s))
      else if re_search_arrow line then
        (case re_search_arrow_group line of
           None \<Rightarrow> Inl AttributeError
         | Some g \<Rightarrow> Inr (Some g, s))
      else Inr (None, s))"

text \<open>One iteration of the loop over the lines (source lines 66 to 105).\<close>

definition dcm2nii_step ::
  "string \<Rightarrow> string option \<Rightarrow> dcm2nii_state \<Rightarrow> string \<Rightarrow> py_error + dcm2nii_state"
where
  "dcm2nii_step cwd output_dir s line =
     (if \<not> skip s then
        (case dcm2nii_file cwd output_dir s line of
           Inl e \<Rightarrow> Inl e
         | Inr (file, s1) \<Rightarrow>
             if truthy file then
               Inr (s1\<lparr>files := files s1 @ [the file], last_added_file := file\<rparr>)
             else if startswith line ''Reorienting as '' then
               Inr (s1\<lparr>reoriented_files :=
                          reoriented_files s1 @ [drop (length ''Reorienting as '') line],
                        skip := True\<rparr>)
             else if startswith line ''Cropping NIfTI/Analyze image '' then
               (let (base, filename) =
                      path_split (drop (length ''Cropping NIfTI/Analyze image '') line)
                in Inr (s1\<lparr>reoriented_and_cropped_files :=
                             reoriented_and_cropped_files s1
                               @ [path_join base (''c'' @ filename)],
                           skip := True\<rparr>))
             else Inr (s1\<lparr>skip := False\<rparr>))
      else Inr (s\<lparr>skip := False\<rparr>))"

text \<open>The loop: an exception in one iteration ends it.\<close>

fun dcm2nii_loop ::
  "string \<Rightarrow> string option \<Rightarrow> dcm2nii_state \<Rightarrow> string list \<Rightarrow> py_error + dcm2nii_state"
where
  "dcm2nii_loop cwd output_dir s [] = Inr s"
| "dcm2nii_loop cwd output_dir s (line # rest) =
     (case dcm2nii_step cwd output_dir s line of
        Inl e \<Rightarrow> Inl e
      | Inr s' \<Rightarrow> dcm2nii_loop cwd output_dir s' rest)"

text \<open>
  \<^verbatim>\<open>Dcm2nii._parse_stdout\<close>: the five lists in the order of the returned tuple.
\<close>

type_synonym dcm2nii_result =
  "string list \<times> string list \<times> string list \<times> string list \<times> string list"

definition Dcm2nii_parse_stdout ::
  "string \<Rightarrow> string option \<Rightarrow> string \<Rightarrow> py_error + dcm2nii_result"
where
  "Dcm2nii_parse_stdout cwd output_dir stdout =
     (case dcm2nii_loop cwd output_dir dcm2nii_init (split_on CHR 0x0A stdout) of
        Inl e \<Rightarrow> Inl e
      | Inr s \<Rightarrow>
          Inr (files s, reoriented_files s, reoriented_and_cropped_files s, bvecs s, bvals s))"

section \<open>Dcm2niix: the stdout scraper\<close>

text \<open>
  The inputs that \<^verbatim>\<open>Dcm2niix._parse_stdout\<close> reads: \<^verbatim>\<open>output_dir\<close> (\<open>None\<close> when
  undefined), the enumeration \<^verbatim>\<open>compress\<close> with its values \<^verbatim>\<open>'y'\<close>, \<^verbatim>\<open>'i'\<close>, \<^verbatim>\<open>'n'\<close>, and
  \<^verbatim>\<open>bids_format\<close>.
\<close>

datatype compress_mode = Compress_y | Compress_i | Compress_n

record dcm2niix_inputs =
  output_dir :: "string option"
  compress :: compress_mode
  bids_format :: bool

text \<open>
  The local variables of \<^verbatim>\<open>Dcm2niix._parse_stdout\<close>; the prefix \<open>x_\<close> keeps the field
  names apart from those of the older converter.
\<close>

record dcm2niix_state =
  x_files :: "string list"
  x_bvecs :: "string list"
  x_bvals :: "string list"
  x_bids :: "string list"
  x_skip :: bool
  x_find_b :: bool

definition dcm2niix_init :: dcm2niix_state where
  "dcm2niix_init =
     \<lparr>x_files = [], x_bvecs = [], x_bvals = [], x_bids = [], x_skip = False, x_find_b = False\<rparr>"

text \<open>
  The \<^verbatim>\<open>if/elif/else\<close> of the loop body (source lines 214 to 231): it sets \<^verbatim>\<open>out_file\<close> on
  a \<^verbatim>\<open>Convert\<close> line and raises when the path pattern finds no match and \<^verbatim>\<open>.group(0)\<close> is
  called on \<^verbatim>\<open>None\<close>.
\<close>

definition dcm2niix_out_file ::
  "string \<Rightarrow> dcm2niix_inputs \<Rightarrow> dcm2niix_state \<Rightarrow> string
     \<Rightarrow> py_error + (string option \<times> dcm2niix_state)"
where
  "dcm2niix_out_file cwd inputs s line =
     (if startswith line ''Convert '' then
        (case re_search_path line of
           None \<Rightarrow> Inl AttributeError
         | Some fname \<Rightarrow>
             (let out_file = abspath cwd (path_join (gen_output_dir cwd (output_dir inputs)) fname)
              in if x_find_b s then
                   Inr (Some out_file,
                        s\<lparr>x_bvecs := x_bvecs s @ [out_file @ ''.bvec''],
                          x_bvals := x_bvals s @ [out_file @ ''.bval''],
                          x_find_b := False\<rparr>)
                 else Inr (Some out_file, s)))
      else if str_contains line ''DTI gradients'' \<or> str_contains line ''DTI gradient directions''
      then Inr (None, s\<lparr>x_find_b := True\<rparr>)
      else Inr (None, s))"

text \<open>One iteration of the loop over the lines (source lines 213 to 240).\<close>

definition dcm2niix_step ::
  "string \<Rightarrow> dcm2niix_inputs \<Rightarrow> dcm2niix_state \<Rightarrow> string \<Rightarrow> py_error + dcm2niix_state"
where
  "dcm2niix_step cwd inputs s line =
     (if \<not> x_skip s then
        (case dcm2niix_out_file cwd inputs s line of
           Inl e \<Rightarrow> Inl e
         | Inr (out_file, s1) \<Rightarrow>
             if truthy out_file then
               (let s2 = (if compress inputs = Compress_n
                          then s1\<lparr>x_files := x_files s1 @ [the out_file @ ''.nii'']\<rparr>
                          else s1\<lparr>x_files := x_files s1 @ [the out_file @ ''.nii.gz'']\<rparr>)
                in if bids_format inputs
                   then Inr (s2\<lparr>x_bids := x_bids s2 @ [the out_file @ ''.json'']\<rparr>)
                   else Inr s2)
             else Inr (s1\<lparr>x_skip := False\<rparr>))
      else Inr (s\<lparr>x_skip := False\<rparr>))"

fun dcm2niix_loop ::
  "string \<Rightarrow> dcm2niix_inputs \<Rightarrow> dcm2niix_state \<Rightarrow> string list \<Rightarrow> py_error + dcm2niix_state"
where
  "dcm2niix_loop cwd inputs s [] = Inr s"
| "dcm2niix_loop cwd inputs s (line # rest) =
     (case dcm2niix_step cwd inputs s line of
        Inl e \<Rightarrow> Inl e
      | Inr s' \<Rightarrow> dcm2niix_loop cwd inputs s' rest)"

text \<open>
  The returned tuple has three components when \<^verbatim>\<open>bids\<close> is empty and four otherwise
  (source lines 242 to 245). The selectors read the components by position; \<open>r_bids\<close>
  is the fourth, which only the longer tuple has.
\<close>

datatype dcm2niix_result =
  Tuple3 (r_files: "string list") (r_bvecs: "string list") (r_bvals: "string list")
| Tuple4 (r_files: "string list") (r_bvecs: "string list") (r_bvals: "string list")
    (r_bids: "string list")

definition Dcm2niix_parse_stdout ::
  "string \<Rightarrow> dcm2niix_inputs \<Rightarrow> string \<Rightarrow> py_error + dcm2niix_result"
where
  "Dcm2niix_parse_stdout cwd inputs stdout =
     (case dcm2niix_loop cwd inputs dcm2niix_init (split_on CHR 0x0A stdout) of
        Inl e \<Rightarrow> Inl e
      | Inr s \<Rightarrow>
          if x_bids s = [] then Inr (Tuple3 (x_files s) (x_bvecs s) (x_bvals s))
          else Inr (Tuple4 (x_files s) (x_bvecs s) (x_bvals s) (x_bids s)))"

text \<open>
  \<^verbatim>\<open>Dcm2niix._run_interface\<close> after the command has run and printed \<open>stdout\<close>: it unpacks
  the tuple into four targets when \<^verbatim>\<open>bids_format\<close> is set and into three otherwise;
  unpacking a tuple of another length raises \<^verbatim>\<open>ValueError\<close>. The attributes it sets are
  \<^verbatim>\<open>output_files\<close>, \<^verbatim>\<open>bvecs\<close>, \<^verbatim>\<open>bvals\<close> and, in the first case only, \<^verbatim>\<open>bids\<close>.
\<close>

definition Dcm2niix_run_interface ::
  "string \<Rightarrow> dcm2niix_inputs \<Rightarrow> string
     \<Rightarrow> py_error + (string list \<times> string list \<times> string list \<times> string list option)"
where
  "Dcm2niix_run_interface cwd inputs stdout =
     (case Dcm2niix_parse_stdout cwd inputs stdout of
        Inl e \<Rightarrow> Inl e
      | Inr r \<Rightarrow>
          if bids_format inputs then
            (case r of
               Tuple4 f bvec bval bids \<Rightarrow> Inr (f, bvec, bval, Some bids)
             | Tuple3 f bvec bval \<Rightarrow> Inl ValueError)
          else
            (case r of
               Tuple3 f bvec bval \<Rightarrow> Inr (f, bvec, bval, None)
             | Tuple4 f bvec bval bids \<Rightarrow> Inl ValueError))"

section \<open>The boolean flags of the two converters\<close>

text \<open>
  A trait of an input specification, as far as formatting reads it: its \<^verbatim>\<open>argstr\<close> and
  whether its type is \<^verbatim>\<open>traits.Bool\<close>. The value of an input is a boolean, a string or a
  list of strings.
\<close>

record trait_spec =
  argstr :: string
  is_bool :: bool

datatype py_value = PyBool bool | PyStr string | PyList "string list"

text \<open>Python truth of a value, as \<^verbatim>\<open>if val:\<close> tests it.\<close>

fun py_truth :: "py_value \<Rightarrow> bool" where
  "py_truth (PyBool b) = b"
| "py_truth (PyStr s) = (s \<noteq> [])"
| "py_truth (PyList xs) = (xs \<noteq> [])"

text \<open>
  \<^verbatim>\<open>template % x\<close> for a template with \<^verbatim>\<open>%s\<close> directives and one string argument: the
  first \<^verbatim>\<open>%s\<close> is replaced by the argument.
\<close>

fun percent_s :: "string \<Rightarrow> string \<Rightarrow> string" where
  "percent_s [] x = []"
| "percent_s [c] x = [c]"
| "percent_s (c # d # cs) x =
     (if c = CHR ''%'' \<and> d = CHR ''s'' then x @ cs else c # percent_s (d # cs) x)"

text \<open>\<^verbatim>\<open>str(v)\<close> of a value that is formatted with a template.\<close>

fun py_str :: "py_value \<Rightarrow> string" where
  "py_str (PyBool b) = (if b then ''True'' else ''False'')"
| "py_str (PyStr s) = s"
| "py_str (PyList xs) = str_join '' '' xs"

text \<open>
  Modelled from the spec: \<^verbatim>\<open>CommandLine._format_arg\<close> of \<^verbatim>\<open>nipype.interfaces.base\<close>, the
  base class method that both converters call through \<^verbatim>\<open>super\<close>; it is the
  parameter-to-command-line mapper of the spec, which emits for each defined field
  ``its associated flag/positional token according to a declared position and format
  template''. A boolean field whose template has no format directive is emitted as the
  template itself when the value is true and is omitted (\<open>None\<close>) otherwise; any other
  field is formatted with its template.
\<close>

definition CommandLine_format_arg :: "string \<Rightarrow> trait_spec \<Rightarrow> py_value \<Rightarrow> string option" where
  "CommandLine_format_arg name spec val =
     (if is_bool spec \<and> CHR ''%'' \<notin> set (argstr spec)
      then (if py_truth val then Some (argstr spec) else None)
      else Some (percent_s (argstr spec) (py_str val)))"

text \<open>The input specifications of the two converters (source lines 10 to 23, 129 to 151).\<close>

definition Dcm2niiInputSpec :: "(string \<times> trait_spec) list" where
  "Dcm2niiInputSpec =
     [(''source_dir'', \<lparr>argstr = ''%s'', is_bool = False\<rparr>),
      (''source_names'', \<lparr>argstr = ''%s'', is_bool = False\<rparr>),
      (''gzip_output'', \<lparr>argstr = ''-g'', is_bool = True\<rparr>),
      (''nii_output'', \<lparr>argstr = ''-n'', is_bool = True\<rparr>),
      (''anonymize'', \<lparr>argstr = ''-a'', is_bool = True\<rparr>),
      (''id_in_filename'', \<lparr>argstr = ''-i'', is_bool = True\<rparr>),
      (''reorient'', \<lparr>argstr = ''-r'', is_bool = True\<rparr>),
      (''reorient_and_crop'', \<lparr>argstr = ''-x'', is_bool = True\<rparr>),
      (''output_dir'', \<lparr>argstr = ''-o %s'', is_bool = False\<rparr>),
      (''config_file'', \<lparr>argstr = ''-b %s'', is_bool = False\<rparr>),
      (''convert_all_pars'', \<lparr>argstr = ''-v'', is_bool = True\<rparr>),
      (''args'', \<lparr>argstr = ''%s'', is_bool = False\<rparr>)]"

definition Dcm2niixInputSpec :: "(string \<times> trait_spec) list" where
  "Dcm2niixInputSpec =
     [(''source_names'', \<lparr>argstr = ''%s'', is_bool = False\<rparr>),
      (''source_dir'', \<lparr>argstr = ''%s'', is_bool = False\<rparr>),
      (''out_filename'', \<lparr>argstr = ''-f %s'', is_bool = False\<rparr>),
      (''output_dir'', \<lparr>argstr = ''-o %s'', is_bool = False\<rparr>),
      (''bids_format'', \<lparr>argstr = ''-b'', is_bool = True\<rparr>),
      (''compress'', \<lparr>argstr = ''-z %s'', is_bool = False\<rparr>),
      (''merge_imgs'', \<lparr>argstr = ''-m'', is_bool = True\<rparr>),
      (''single_file'', \<lparr>argstr = ''-s'', is_bool = True\<rparr>),
      (''verbose'', \<lparr>argstr = ''-v'', is_bool = True\<rparr>),
      (''crop'', \<lparr>argstr = ''-x'', is_bool = True\<rparr>),
      (''has_private'', \<lparr>argstr = ''-t'', is_bool = True\<rparr>)]"

text \<open>
  \<^verbatim>\<open>Dcm2nii._format_arg\<close> (source lines 38 to 46). The copy of the trait gets \<^verbatim>\<open> y\<close> or
  \<^verbatim>\<open> n\<close> appended to its \<^verbatim>\<open>argstr\<close>, and a false value is replaced by \<^verbatim>\<open>True\<close> before the
  base method is called.
\<close>

definition Dcm2nii_format_arg :: "string \<Rightarrow> trait_spec \<Rightarrow> py_value \<Rightarrow> string option" where
  "Dcm2nii_format_arg opt spec val =
     (if opt \<in> set [''gzip_output'', ''nii_output'', ''anonymize'', ''id_in_filename'',
                     ''reorient'', ''reorient_and_crop'', ''convert_all_pars'']
      then (if py_truth val
            then CommandLine_format_arg opt (spec\<lparr>argstr := argstr spec @ '' y''\<rparr>) val
            else CommandLine_format_arg opt (spec\<lparr>argstr := argstr spec @ '' n''\<rparr>) (PyBool True))
      else CommandLine_format_arg opt spec val)"

text \<open>
  \<^verbatim>\<open>Dcm2niix._format_arg\<close> (source lines 182 to 193). For \<^verbatim>\<open>source_names\<close> the template is
  filled with \<^verbatim>\<open>val[0]\<close>: the first element of a list or the first character of a string;
  an empty one raises \<^verbatim>\<open>IndexError\<close> and a boolean cannot be indexed.
\<close>

definition Dcm2niix_format_arg ::
  "string \<Rightarrow> trait_spec \<Rightarrow> py_value \<Rightarrow> py_error + string option"
where
  "Dcm2niix_format_arg opt spec val =
     (let (spec1, val1) =
            (if opt \<in> set [''bids_format'', ''merge_imgs'', ''single_file'', ''verbose'', ''crop'',
                            ''has_private'']
             then (if py_truth val then (spec\<lparr>argstr := argstr spec @ '' y''\<rparr>, val)
                   else (spec\<lparr>argstr := argstr spec @ '' n''\<rparr>, PyBool True))
             else (spec, val))
      in if opt = ''source_names'' then
           (case val1 of
              PyList [] \<Rightarrow> Inl IndexError
            | PyList (x # xs) \<Rightarrow> Inr (Some (percent_s (argstr spec1) x))
            | PyStr [] \<Rightarrow> Inl IndexError
            | PyStr (c # cs) \<Rightarrow> Inr (Some (percent_s (argstr spec1) [c]))
            | PyBool b \<Rightarrow> Inl TypeError)
         else Inr (CommandLine_format_arg opt spec1 val1))"

section \<open>MRtrix: the generated output file names\<close>

text \<open>
  Modelled from the spec: \<^verbatim>\<open>fname_presuffix\<close> of \<^verbatim>\<open>nipype.utils.filemanip\<close>, the utility
  that ``reconstructs a sibling filename with a new suffix/extension''; it is imported by
  the source file and is not part of it. The name is the prefix, the base name of the
  file and the suffix, with the extension of the file when \<^verbatim>\<open>use_ext\<close> is set, in the
  directory \<^verbatim>\<open>newpath\<close> made absolute, or in the directory of the file when no new path is
  given.
\<close>

definition fname_presuffix ::
  "string \<Rightarrow> string \<Rightarrow> string \<Rightarrow> string \<Rightarrow> string option \<Rightarrow> bool \<Rightarrow> string"
where
  "fname_presuffix getcwd fname prefix suffix newpath use_ext =
     (let (pth, name, ext) = split_filename fname;
          ext1 = (if use_ext then ext else []);
          pth1 = (if truthy newpath then abspath getcwd (the newpath) else pth)
      in path_join pth1 (prefix @ name @ suffix @ ext1))"

text \<open>
  \<^verbatim>\<open>DWIDenoise._gen_fname\<close> and \<^verbatim>\<open>DWIBiasCorrect._gen_fname\<close> (source lines 46 to 88 and
  132 to 174; the two bodies are the same). \<open>getcwd\<close> is what \<^verbatim>\<open>os.getcwd()\<close> returns.
\<close>

definition DWIDenoise_gen_fname ::
  "string \<Rightarrow> string \<Rightarrow> string option \<Rightarrow> string option \<Rightarrow> bool \<Rightarrow> string \<Rightarrow> py_error + string"
where
  "DWIDenoise_gen_fname getcwd basename cwd suffix change_ext ext =
     (if basename = [] then Inl ValueError
      else
        let cwd1 = (case cwd of None \<Rightarrow> getcwd | Some d \<Rightarrow> d);
            suffix1 = (if change_ext
                       then (if truthy suffix then Some (the suffix @ ext) else Some ext)
                       else suffix);
            suffix2 = (case suffix1 of None \<Rightarrow> [] | Some x \<Rightarrow> x)
        in Inr (fname_presuffix getcwd basename [] suffix2 (Some cwd1) False))"

definition DWIBiasCorrect_gen_fname ::
  "string \<Rightarrow> string \<Rightarrow> string option \<Rightarrow> string option \<Rightarrow> bool \<Rightarrow> string \<Rightarrow> py_error + string"
where
  "DWIBiasCorrect_gen_fname getcwd basename cwd suffix change_ext ext =
     (if basename = [] then Inl ValueError
      else
        let cwd1 = (case cwd of None \<Rightarrow> getcwd | Some d \<Rightarrow> d);
            suffix1 = (if change_ext
                       then (if truthy suffix then Some (the suffix @ ext) else Some ext)
                       else suffix);
            suffix2 = (case suffix1 of None \<Rightarrow> [] | Some x \<Rightarrow> x)
        in Inr (fname_presuffix getcwd basename [] suffix2 (Some cwd1) False))"

text \<open>
  \<^verbatim>\<open>_gen_outfilename\<close> of the two classes (source lines 90 to 94 and 176 to 180). The
  inputs \<^verbatim>\<open>out_file\<close> and \<^verbatim>\<open>in_file\<close> are \<open>None\<close> when undefined; \<^verbatim>\<open>os.path.abspath\<close> of an
  undefined value raises.
\<close>

definition DWIDenoise_gen_outfilename ::
  "string \<Rightarrow> string option \<Rightarrow> string option \<Rightarrow> py_error + string"
where
  "DWIDenoise_gen_outfilename getcwd out_file in_file =
     (if out_file = None \<and> in_file \<noteq> None then
        (case DWIDenoise_gen_fname getcwd (the in_file) None (Some ''_denoised'') True ''.mif'' of
           Inl e \<Rightarrow> Inl e
         | Inr f \<Rightarrow> Inr (abspath getcwd f))
      else (case out_file of None \<Rightarrow> Inl TypeError | Some f \<Rightarrow> Inr (abspath getcwd f)))"

definition DWIBiasCorrect_gen_outfilename ::
  "string \<Rightarrow> string option \<Rightarrow> string option \<Rightarrow> py_error + string"
where
  "DWIBiasCorrect_gen_outfilename getcwd out_file in_file =
     (if out_file = None \<and> in_file \<noteq> None then
        (case DWIBiasCorrect_gen_fname getcwd (the in_file) None (Some ''_biascorr'') True ''.mif'' of
           Inl e \<Rightarrow> Inl e
         | Inr f \<Rightarrow> Inr (abspath getcwd f))
      else (case out_file of None \<Rightarrow> Inl TypeError | Some f \<Rightarrow> Inr (abspath getcwd f)))"

text \<open>
  The entry \<^verbatim>\<open>out_file\<close> of \<^verbatim>\<open>_list_outputs\<close> of the two classes (source lines 96 to 98 and
  182 to 184) is the generated name.
\<close>

definition DWIDenoise_list_outputs ::
  "string \<Rightarrow> string option \<Rightarrow> string option \<Rightarrow> py_error + string"
where
  "DWIDenoise_list_outputs getcwd out_file in_file =
     DWIDenoise_gen_outfilename getcwd out_file in_file"

definition DWIBiasCorrect_list_outputs ::
  "string \<Rightarrow> string option \<Rightarrow> string option \<Rightarrow> py_error + string"
where
  "DWIBiasCorrect_list_outputs getcwd out_file in_file =
     DWIBiasCorrect_gen_outfilename getcwd out_file in_file"

text \<open>
  \<^verbatim>\<open>MRConvert\<close> (source lines 257 to 273). The enumeration \<^verbatim>\<open>extension\<close> has the default
  \<^verbatim>\<open>mif\<close>.
\<close>

datatype mrconvert_extension =
  Ext_mif | Ext_nii | Ext_float | Ext_char | Ext_short | Ext_int | Ext_long | Ext_double

fun extension_str :: "mrconvert_extension \<Rightarrow> string" where
  "extension_str Ext_mif = ''mif''"
| "extension_str Ext_nii = ''nii''"
| "extension_str Ext_float = ''float''"
| "extension_str Ext_char = ''char''"
| "extension_str Ext_short = ''short''"
| "extension_str Ext_int = ''int''"
| "extension_str Ext_long = ''long''"
| "extension_str Ext_double = ''double''"

definition MRConvert_gen_outfilename ::
  "string \<Rightarrow> string option \<Rightarrow> mrconvert_extension \<Rightarrow> string"
where
  "MRConvert_gen_outfilename in_file out_filename extension =
     (let (pth, name, ext) = split_filename in_file in
      case out_filename of
        Some outname \<Rightarrow> outname
      | None \<Rightarrow> name @ ''_mrconvert.'' @ extension_str extension)"

definition MRConvert_list_outputs ::
  "string \<Rightarrow> string \<Rightarrow> string option \<Rightarrow> mrconvert_extension \<Rightarrow> string"
where
  "MRConvert_list_outputs getcwd in_file out_filename extension =
     abspath getcwd (MRConvert_gen_outfilename in_file out_filename extension)"

text \<open>
  \<^verbatim>\<open>DWI2Tensor\<close> (source lines 309 to 324): \<^verbatim>\<open>in_file\<close> is a list of paths. The trait
  stores an empty list as the undefined value, and indexing that raises \<^verbatim>\<open>TypeError\<close>.
\<close>

definition DWI2Tensor_gen_outfilename :: "string list \<Rightarrow> py_error + string" where
  "DWI2Tensor_gen_outfilename in_file =
     (case in_file of
        [] \<Rightarrow> Inl TypeError
      | f # fs \<Rightarrow> (let (pth, name, ext) = split_filename f in Inr (name @ ''_tensor.mif'')))"

definition DWI2Tensor_list_outputs ::
  "string \<Rightarrow> string list \<Rightarrow> string option \<Rightarrow> py_error + string"
where
  "DWI2Tensor_list_outputs getcwd in_file out_filename =
     (if out_filename = None then
        (case DWI2Tensor_gen_outfilename in_file of
           Inl e \<Rightarrow> Inl e
         | Inr f \<Rightarrow> Inr (abspath getcwd f))
      else Inr (abspath getcwd (the out_filename)))"

text \<open>\<^verbatim>\<open>Tensor2Vector\<close> (source lines 353 to 365).\<close>

definition Tensor2Vector_gen_outfilename :: "string \<Rightarrow> string" where
  "Tensor2Vector_gen_outfilename in_file =
     (let (pth, name, ext) = split_filename in_file in name @ ''_vector.mif'')"

definition Tensor2Vector_list_outputs :: "string \<Rightarrow> string \<Rightarrow> string" where
  "Tensor2Vector_list_outputs getcwd in_file =
     abspath getcwd (Tensor2Vector_gen_outfilename in_file)"

text \<open>\<^verbatim>\<open>Tensor2FractionalAnisotropy\<close> (source lines 396 to 413).\<close>

definition Tensor2FractionalAnisotropy_gen_outfilename :: "string \<Rightarrow> string" where
  "Tensor2FractionalAnisotropy_gen_outfilename in_file =
     (let (pth, name, ext) = split_filename in_file in name @ ''_FA.mif'')"

definition Tensor2FractionalAnisotropy_list_outputs ::
  "string \<Rightarrow> string \<Rightarrow> string option \<Rightarrow> string"
where
  "Tensor2FractionalAnisotropy_list_outputs getcwd in_file out_filename =
     (if out_filename = None
      then abspath getcwd (Tensor2FractionalAnisotropy_gen_outfilename in_file)
      else abspath getcwd (the out_filename))"

text \<open>\<^verbatim>\<open>Tensor2ApparentDiffusion\<close> (source lines 442 to 454).\<close>

definition Tensor2ApparentDiffusion_gen_outfilename :: "string \<Rightarrow> string" where
  "Tensor2ApparentDiffusion_gen_outfilename in_file =
     (let (pth, name, ext) = split_filename in_file in name @ ''_ADC.mif'')"

definition Tensor2ApparentDiffusion_list_outputs :: "string \<Rightarrow> string \<Rightarrow> string" where
  "Tensor2ApparentDiffusion_list_outputs getcwd in_file =
     abspath getcwd (Tensor2ApparentDiffusion_gen_outfilename in_file)"

text \<open>
  \<^verbatim>\<open>MRMultiply\<close> (source lines 483 to 495): \<^verbatim>\<open>in_files\<close> is a list of paths, an empty one
  being stored as the undefined value.
\<close>

definition MRMultiply_gen_outfilename :: "string list \<Rightarrow> py_error + string" where
  "MRMultiply_gen_outfilename in_files =
     (case in_files of
        [] \<Rightarrow> Inl TypeError
      | f # fs \<Rightarrow> (let (pth, name, ext) = split_filename f in Inr (name @ ''_MRMult.mif'')))"

definition MRMultiply_list_outputs :: "string \<Rightarrow> string list \<Rightarrow> py_error + string" where
  "MRMultiply_list_outputs getcwd in_files =
     (case MRMultiply_gen_outfilename in_files of
        Inl e \<Rightarrow> Inl e
      | Inr f \<Rightarrow> Inr (abspath getcwd f))"

text \<open>\<^verbatim>\<open>GenerateWhiteMatterMask\<close> (source lines 582 to 594).\<close>

definition GenerateWhiteMatterMask_gen_outfilename :: "string \<Rightarrow> string" where
  "GenerateWhiteMatterMask_gen_outfilename in_file =
     (let (pth, name, ext) = split_filename in_file in name @ ''_WMProb.mif'')"

definition GenerateWhiteMatterMask_list_outputs :: "string \<Rightarrow> string \<Rightarrow> string" where
  "GenerateWhiteMatterMask_list_outputs getcwd in_file =
     abspath getcwd (GenerateWhiteMatterMask_gen_outfilename in_file)"

text \<open>\<^verbatim>\<open>Erode\<close> (source lines 625 to 637).\<close>

definition Erode_gen_outfilename :: "string \<Rightarrow> string" where
  "Erode_gen_outfilename in_file =
     (let (pth, name, ext) = split_filename in_file in name @ ''_erode.mif'')"

definition Erode_list_outputs :: "string \<Rightarrow> string \<Rightarrow> string" where
  "Erode_list_outputs getcwd in_file = abspath getcwd (Erode_gen_outfilename in_file)"

text \<open>\<^verbatim>\<open>Threshold\<close> (source lines 675 to 687).\<close>

definition Threshold_gen_outfilename :: "string \<Rightarrow> string" where
  "Threshold_gen_outfilename in_file =
     (let (pth, name, ext) = split_filename in_file in name @ ''_thresh.mif'')"

definition Threshold_list_outputs :: "string \<Rightarrow> string \<Rightarrow> string" where
  "Threshold_list_outputs getcwd in_file = abspath getcwd (Threshold_gen_outfilename in_file)"

text \<open>\<^verbatim>\<open>MedianFilter3D\<close> (source lines 716 to 728).\<close>

definition MedianFilter3D_gen_outfilename :: "string \<Rightarrow> string" where
  "MedianFilter3D_gen_outfilename in_file =
     (let (pth, name, ext) = split_filename in_file in name @ ''_median3D.mif'')"

definition MedianFilter3D_list_outputs :: "string \<Rightarrow> string \<Rightarrow> string" where
  "MedianFilter3D_list_outputs getcwd in_file =
     abspath getcwd (MedianFilter3D_gen_outfilename in_file)"

text \<open>
  \<^verbatim>\<open>MRTransform\<close> (source lines 768 to 780): \<^verbatim>\<open>in_files\<close> is a list of paths, an empty one
  being stored as the undefined value.
\<close>

definition MRTransform_gen_outfilename :: "string list \<Rightarrow> py_error + string" where
  "MRTransform_gen_outfilename in_files =
     (case in_files of
        [] \<Rightarrow> Inl TypeError
      | f # fs \<Rightarrow> (let (pth, name, ext) = split_filename f in Inr (name @ ''_MRTransform.mif'')))"

definition MRTransform_list_outputs :: "string \<Rightarrow> string list \<Rightarrow> py_error + string" where
  "MRTransform_list_outputs getcwd in_files =
     (case MRTransform_gen_outfilename in_files of
        Inl e \<Rightarrow> Inl e
      | Inr f \<Rightarrow> Inr (abspath getcwd f))"

section \<open>Properties of the string helpers and of the two scans\<close>

lemma split_on_not_Nil: "split_on sep s \<noteq> []"
  by (induction s) (auto split: list.splits)

lemma split_on_single: "sep \<notin> set a \<Longrightarrow> split_on sep a = [a]"
  by (induction a) (auto split: list.splits)

lemma split_on_append: "sep \<notin> set a \<Longrightarrow> split_on sep (a @ sep # b) = a # split_on sep b"
  by (induction a) (auto split: list.splits simp: split_on_not_Nil)

lemma dcm2nii_loop_append:
  "dcm2nii_loop cwd od s (xs @ ys) =
     (case dcm2nii_loop cwd od s xs of Inl e \<Rightarrow> Inl e | Inr s' \<Rightarrow> dcm2nii_loop cwd od s' ys)"
  by (induction xs arbitrary: s) (auto split: sum.splits)

lemma dcm2nii_step_skip: "skip s \<Longrightarrow> dcm2nii_step cwd od s line = Inr (s\<lparr>skip := False\<rparr>)"
  by (simp add: dcm2nii_step_def)

lemma dcm2nii_step_plain:
  assumes "\<not> skip s"
    and "\<not> startswith line ''Saving ''" "\<not> startswith line ''GZip...''"
    and "\<not> startswith line ''Number of diffusion directions ''"
    and "\<not> re_search_arrow line"
    and "\<not> startswith line ''Reorienting as ''"
    and "\<not> startswith line ''Cropping NIfTI/Analyze image ''"
  shows "dcm2nii_step cwd od s line = Inr s"
  using assms by (simp add: dcm2nii_step_def dcm2nii_file_def truthy_def)

lemma dcm2nii_loop_plain:
  assumes "\<not> skip s"
    and "\<forall>line \<in> set ls. \<not> startswith line ''Saving '' \<and> \<not> startswith line ''GZip...''
          \<and> \<not> startswith line ''Number of diffusion directions ''
          \<and> \<not> re_search_arrow line
          \<and> \<not> startswith line ''Reorienting as ''
          \<and> \<not> startswith line ''Cropping NIfTI/Analyze image ''"
  shows "dcm2nii_loop cwd od s ls = Inr s"
  using assms
proof (induction ls)
  case Nil
  then show ?case by simp
next
  case (Cons l ls)
  then have "dcm2nii_step cwd od s l = Inr s"
    by (intro dcm2nii_step_plain) simp_all
  with Cons show ?case by simp
qed

lemma dcm2niix_loop_append:
  "dcm2niix_loop cwd inp s (xs @ ys) =
     (case dcm2niix_loop cwd inp s xs of Inl e \<Rightarrow> Inl e | Inr s' \<Rightarrow> dcm2niix_loop cwd inp s' ys)"
  by (induction xs arbitrary: s) (auto split: sum.splits)

lemma dcm2niix_step_plain:
  assumes "\<not> x_skip s"
    and "\<not> startswith line ''Convert ''"
    and "\<not> str_contains line ''DTI gradients''"
    and "\<not> str_contains line ''DTI gradient directions''"
  shows "dcm2niix_step cwd inp s line = Inr s"
  using assms by (simp add: dcm2niix_step_def dcm2niix_out_file_def truthy_def)

lemma dcm2niix_loop_plain:
  assumes "\<not> x_skip s"
    and "\<forall>line \<in> set ls. \<not> startswith line ''Convert ''
          \<and> \<not> str_contains line ''DTI gradients''
          \<and> \<not> str_contains line ''DTI gradient directions''"
  shows "dcm2niix_loop cwd inp s ls = Inr s"
  using assms
proof (induction ls)
  case Nil
  then show ?case by simp
next
  case (Cons l ls)
  then have "dcm2niix_step cwd inp s l = Inr s"
    by (intro dcm2niix_step_plain) simp_all
  with Cons show ?case by simp
qed

section \<open>The scrapers on output without markers\<close>

text \<open>
  C1. When no line of the captured output starts with one of the prefixes \<^verbatim>\<open>Saving \<close>,
  \<^verbatim>\<open>GZip...\<close>, \<^verbatim>\<open>Number of diffusion directions \<close>, \<^verbatim>\<open>Reorienting as \<close>,
  \<^verbatim>\<open>Cropping NIfTI/Analyze image \<close>, \<^verbatim>\<open>Convert \<close>, none matches the arrow pattern and none
  contains \<^verbatim>\<open>DTI gradients\<close> or \<^verbatim>\<open>DTI gradient directions\<close>, both scrapers return (they
  raise nothing) and every list they return is empty. The newer scraper returns its
  three-component tuple there.
\<close>

theorem no_marker_empty:
  assumes "\<forall>line \<in> set (split_on CHR 0x0A stdout).
             \<not> startswith line ''Saving '' \<and> \<not> startswith line ''GZip...''
           \<and> \<not> startswith line ''Number of diffusion directions ''
           \<and> \<not> startswith line ''Reorienting as ''
           \<and> \<not> startswith line ''Cropping NIfTI/Analyze image ''
           \<and> \<not> startswith line ''Convert ''
           \<and> \<not> re_search_arrow line
           \<and> \<not> str_contains line ''DTI gradients''
           \<and> \<not> str_contains line ''DTI gradient directions''"
  shows "Dcm2nii_parse_stdout cwd od stdout = Inr ([], [], [], [], [])
       \<and> Dcm2niix_parse_stdout cwd inp stdout = Inr (Tuple3 [] [] [])"
proof -
  have "dcm2nii_loop cwd od dcm2nii_init (split_on CHR 0x0A stdout) = Inr dcm2nii_init"
    using assms by (intro dcm2nii_loop_plain) (simp_all add: dcm2nii_init_def)
  moreover
  have "dcm2niix_loop cwd inp dcm2niix_init (split_on CHR 0x0A stdout) = Inr dcm2niix_init"
    using assms by (intro dcm2niix_loop_plain) (simp_all add: dcm2niix_init_def)
  ultimately show ?thesis
    by (simp add: Dcm2nii_parse_stdout_def Dcm2niix_parse_stdout_def
        dcm2nii_init_def dcm2niix_init_def)
qed


theorem no_marker_empty_witness:
  "list_all (\<lambda>line. \<not> startswith line ''Saving '' \<and> \<not> startswith line ''GZip...''
           \<and> \<not> startswith line ''Number of diffusion directions ''
           \<and> \<not> startswith line ''Reorienting as ''
           \<and> \<not> startswith line ''Cropping NIfTI/Analyze image ''
           \<and> \<not> startswith line ''Convert ''
           \<and> \<not> re_search_arrow line
           \<and> \<not> str_contains line ''DTI gradients''
           \<and> \<not> str_contains line ''DTI gradient directions'')
      (split_on CHR 0x0A ''Chris Rorden's dcm2nii\<newline>\<newline>no images found'')
   \<and> Dcm2nii_parse_stdout ''/cwd'' None ''Chris Rorden's dcm2nii\<newline>\<newline>no images found''
         = Inr ([], [], [], [], [])
   \<and> Dcm2niix_parse_stdout ''/cwd''
         \<lparr>output_dir = None, compress = Compress_i, bids_format = True\<rparr>
         ''Chris Rorden's dcm2nii\<newline>\<newline>no images found''
         = Inr (Tuple3 [] [] [])"
proof -
  have h: "\<forall>line \<in> set (split_on CHR 0x0A ''Chris Rorden's dcm2nii\<newline>\<newline>no images found'').
             \<not> startswith line ''Saving '' \<and> \<not> startswith line ''GZip...''
           \<and> \<not> startswith line ''Number of diffusion directions ''
           \<and> \<not> startswith line ''Reorienting as ''
           \<and> \<not> startswith line ''Cropping NIfTI/Analyze image ''
           \<and> \<not> startswith line ''Convert ''
           \<and> \<not> re_search_arrow line
           \<and> \<not> str_contains line ''DTI gradients''
           \<and> \<not> str_contains line ''DTI gradient directions''"
    by code_simp
  from no_marker_empty [OF h] h show ?thesis unfolding list_all_iff by blast
qed

lemma after_last_None: "after_last sub s = None \<longleftrightarrow> \<not> str_contains s sub"
  by (induction s) (auto split: option.splits simp: startswith_def)

lemma startswith_iff: "startswith s p \<longleftrightarrow> (\<exists>r. s = p @ r)"
  unfolding startswith_def by (metis append_eq_conv_conj)

lemma str_contains_iff: "str_contains s sub \<longleftrightarrow> (\<exists>u v. s = u @ sub @ v)"
proof (induction s)
  case Nil
  then show ?case by auto
next
  case (Cons c cs)
  show ?case
  proof
    assume "str_contains (c # cs) sub"
    then consider "startswith (c # cs) sub" | "str_contains cs sub" by auto
    then show "\<exists>u v. c # cs = u @ sub @ v"
    proof cases
      case 1
      then obtain r where "c # cs = [] @ sub @ r" by (auto simp: startswith_iff)
      then show ?thesis by blast
    next
      case 2
      with Cons obtain u v where "cs = u @ sub @ v" by blast
      then have "c # cs = (c # u) @ sub @ v" by simp
      then show ?thesis by blast
    qed
  next
    assume "\<exists>u v. c # cs = u @ sub @ v"
    then obtain u v where uv: "c # cs = u @ sub @ v" by blast
    show "str_contains (c # cs) sub"
    proof (cases u)
      case Nil
      with uv have "startswith (c # cs) sub" by (auto simp: startswith_iff)
      then show ?thesis by simp
    next
      case (Cons d u')
      with uv have "cs = u' @ sub @ v" by simp
      with Cons.IH show ?thesis by auto
    qed
  qed
qed

text \<open>
  The extracted group is the rest of the line after an occurrence of the arrow and the
  space, and no later occurrence remains in what follows the arrow.
\<close>

lemma after_last_Some:
  assumes "after_last sub s = Some g"
  shows "\<exists>u. s = u @ sub @ g"
  using assms
proof (induction s)
  case Nil
  then show ?case by (auto split: if_splits)
next
  case (Cons c cs)
  show ?case
  proof (cases "after_last sub cs")
    case None
    with Cons.prems have "startswith (c # cs) sub" "g = drop (length sub) (c # cs)"
      by (auto split: if_splits)
    then have "c # cs = [] @ sub @ g"
      by (auto simp: startswith_def) (metis append_take_drop_id)
    then show ?thesis by blast
  next
    case (Some g')
    with Cons.prems have "g' = g" by simp
    with Some Cons.IH obtain u where "cs = u @ sub @ g" by blast
    then have "c # cs = (c # u) @ sub @ g" by simp
    then show ?thesis by blast
  qed
qed

lemma after_last_is_last:
  assumes "after_last sub s = Some g" "sub \<noteq> []"
  shows "\<not> str_contains (tl (sub @ g)) sub"
  using assms
proof (induction s)
  case Nil
  then show ?case by (auto split: if_splits)
next
  case (Cons c cs)
  show ?case
  proof (cases "after_last sub cs")
    case None
    with Cons.prems have sw: "startswith (c # cs) sub" and g: "g = drop (length sub) (c # cs)"
      by (auto split: if_splits)
    then have "c # cs = sub @ g"
      by (auto simp: startswith_def) (metis append_take_drop_id)
    with Cons.prems(2) have "cs = tl (sub @ g)"
      by (cases sub) auto
    with None show ?thesis by (simp add: after_last_None)
  next
    case (Some g')
    with Cons.prems have "g' = g" by simp
    with Some Cons.IH Cons.prems(2) show ?thesis by blast
  qed
qed

lemma dcm2nii_step_returns:
  assumes "re_search_arrow line \<longrightarrow> str_contains line ''--> ''"
  shows "\<exists>s'. dcm2nii_step cwd od s line = Inr s'"
proof -
  have "re_search_arrow line \<Longrightarrow> \<exists>g. re_search_arrow_group line = Some g"
    using assms after_last_None [of "''--> ''" line]
    by (cases "re_search_arrow_group line") (simp_all add: re_search_arrow_group_def)
  then show ?thesis
    by (auto simp: dcm2nii_step_def dcm2nii_file_def split: prod.splits)
qed

lemma dcm2nii_loop_returns:
  assumes "\<forall>line \<in> set ls. re_search_arrow line \<longrightarrow> str_contains line ''--> ''"
  shows "\<exists>s'. dcm2nii_loop cwd od s ls = Inr s'"
  using assms
proof (induction ls arbitrary: s)
  case Nil
  then show ?case by simp
next
  case (Cons l ls)
  then obtain s1 where "dcm2nii_step cwd od s l = Inr s1"
    using dcm2nii_step_returns [of l cwd od s] by auto
  with Cons show ?case by simp
qed

lemma dcm2nii_step_grows:
  assumes "dcm2nii_step cwd od s line = Inr s'"
  shows "set (files s) \<subseteq> set (files s') \<and> set (bvecs s) \<subseteq> set (bvecs s')
       \<and> set (bvals s) \<subseteq> set (bvals s')"
  using assms
  by (auto simp: dcm2nii_step_def dcm2nii_file_def
      split: if_splits option.splits prod.splits sum.splits)

lemma dcm2nii_loop_grows:
  assumes "dcm2nii_loop cwd od s ls = Inr s'"
  shows "set (files s) \<subseteq> set (files s') \<and> set (bvecs s) \<subseteq> set (bvecs s')
       \<and> set (bvals s) \<subseteq> set (bvals s')"
  using assms
proof (induction ls arbitrary: s)
  case Nil
  then show ?case by simp
next
  case (Cons l ls)
  then obtain s1 where s1: "dcm2nii_step cwd od s l = Inr s1"
    and rest: "dcm2nii_loop cwd od s1 ls = Inr s'"
    by (auto split: sum.splits)
  from dcm2nii_step_grows [OF s1] Cons.IH [OF rest] show ?case by blast
qed

lemma dcm2nii_step_Saving:
  assumes "\<not> skip s" "f \<noteq> []"
  shows "dcm2nii_step cwd od s (''Saving '' @ f)
           = Inr (s\<lparr>files := files s @ [f], last_added_file := Some f\<rparr>)"
  using assms by (simp add: dcm2nii_step_def dcm2nii_file_def startswith_def truthy_def)

lemma dcm2nii_step_Number:
  assumes "\<not> skip s" "last_added_file s = Some f" "f \<noteq> []" "split_filename f = (b, n, e)"
  shows "dcm2nii_step cwd od s (''Number of diffusion directions '' @ x)
           = Inr (s\<lparr>bvecs := bvecs s @ [path_join b (n @ ''.bvec'')],
                     bvals := bvals s @ [path_join b (n @ ''.bval'')]\<rparr>)"
  using assms by (simp add: dcm2nii_step_def dcm2nii_file_def startswith_def truthy_def)

lemma split_filename_img: "split_filename ''/tmp/out/img.nii'' = (''/tmp/out'', ''img'', ''.nii'')"
  by code_simp

lemma path_join_img:
  "path_join ''/tmp/out'' ''img.bvec'' = ''/tmp/out/img.bvec''"
  "path_join ''/tmp/out'' ''img.bval'' = ''/tmp/out/img.bval''"
  by code_simp+

section \<open>Dcm2nii: converted files and their gradient companions\<close>

text \<open>
  C2, as the code has it. When the scan reaches the line \<^verbatim>\<open>Saving /tmp/out/img.nii\<close> with
  the skip flag clear, the next line is \<^verbatim>\<open>Number of diffusion directions 32\<close>, and no later
  line fails the arrow extraction, the scraper returns, the converted files contain
  \<^verbatim>\<open>/tmp/out/img.nii\<close>, and the gradient vector and value files contain
  \<^verbatim>\<open>/tmp/out/img.bvec\<close> and \<^verbatim>\<open>/tmp/out/img.bval\<close>.
\<close>

theorem saving_then_directions:
  assumes lines: "split_on CHR 0x0A stdout
             = pre @ [''Saving /tmp/out/img.nii'', ''Number of diffusion directions 32''] @ post"
    and pre: "dcm2nii_loop cwd od dcm2nii_init pre = Inr s"
    and reach: "\<not> skip s"
    and post: "\<forall>line \<in> set post. re_search_arrow line \<longrightarrow> str_contains line ''--> ''"
  shows "\<exists>fs rs cs bvecs' bvals'.
           Dcm2nii_parse_stdout cwd od stdout = Inr (fs, rs, cs, bvecs', bvals')
         \<and> ''/tmp/out/img.nii'' \<in> set fs
         \<and> ''/tmp/out/img.bvec'' \<in> set bvecs'
         \<and> ''/tmp/out/img.bval'' \<in> set bvals'"
proof -
  define s1 where "s1 = s\<lparr>files := files s @ [''/tmp/out/img.nii''],
                          last_added_file := Some ''/tmp/out/img.nii''\<rparr>"
  define s2 where "s2 = s1\<lparr>bvecs := bvecs s1 @ [''/tmp/out/img.bvec''],
                           bvals := bvals s1 @ [''/tmp/out/img.bval'']\<rparr>"
  have st1: "dcm2nii_step cwd od s ''Saving /tmp/out/img.nii'' = Inr s1"
    using dcm2nii_step_Saving [OF reach, of "''/tmp/out/img.nii''" cwd od]
    by (simp add: s1_def)
  have "\<not> skip s1" "last_added_file s1 = Some ''/tmp/out/img.nii''"
    using reach by (simp_all add: s1_def)
  from dcm2nii_step_Number [OF this _ split_filename_img, of cwd od "''32''"]
  have st2: "dcm2nii_step cwd od s1 ''Number of diffusion directions 32'' = Inr s2"
    by (simp add: s2_def path_join_img)
  obtain s3 where s3: "dcm2nii_loop cwd od s2 post = Inr s3"
    using dcm2nii_loop_returns [OF post] by blast
  have run: "dcm2nii_loop cwd od dcm2nii_init (split_on CHR 0x0A stdout) = Inr s3"
    by (simp add: lines dcm2nii_loop_append pre st1 st2 s3)
  have "''/tmp/out/img.nii'' \<in> set (files s2)" "''/tmp/out/img.bvec'' \<in> set (bvecs s2)"
    "''/tmp/out/img.bval'' \<in> set (bvals s2)"
    by (simp_all add: s2_def s1_def)
  with dcm2nii_loop_grows [OF s3]
  have "''/tmp/out/img.nii'' \<in> set (files s3)" "''/tmp/out/img.bvec'' \<in> set (bvecs s3)"
    "''/tmp/out/img.bval'' \<in> set (bvals s3)"
    by blast+
  with run show ?thesis
    by (simp add: Dcm2nii_parse_stdout_def)
qed

theorem saving_then_directions_witness:
  "split_on CHR 0x0A
       ''Chris Rorden's dcm2nii\<newline>Saving /tmp/out/img.nii\<newline>Number of diffusion directions 32\<newline>done''
     = [''Chris Rorden's dcm2nii''] @
       [''Saving /tmp/out/img.nii'', ''Number of diffusion directions 32''] @ [''done'']
   \<and> dcm2nii_loop ''/cwd'' None dcm2nii_init [''Chris Rorden's dcm2nii''] = Inr dcm2nii_init
   \<and> \<not> skip dcm2nii_init
   \<and> list_all (\<lambda>line. \<not> re_search_arrow line) [''done'']
   \<and> (\<exists>fs rs cs bvecs' bvals'.
           Dcm2nii_parse_stdout ''/cwd'' None
             ''Chris Rorden's dcm2nii\<newline>Saving /tmp/out/img.nii\<newline>Number of diffusion directions 32\<newline>done''
             = Inr (fs, rs, cs, bvecs', bvals')
         \<and> ''/tmp/out/img.nii'' \<in> set fs
         \<and> ''/tmp/out/img.bvec'' \<in> set bvecs'
         \<and> ''/tmp/out/img.bval'' \<in> set bvals')"
proof -
  have lines: "split_on CHR 0x0A
       ''Chris Rorden's dcm2nii\<newline>Saving /tmp/out/img.nii\<newline>Number of diffusion directions 32\<newline>done''
     = [''Chris Rorden's dcm2nii''] @
       [''Saving /tmp/out/img.nii'', ''Number of diffusion directions 32''] @ [''done'']"
    by code_simp
  have pre: "dcm2nii_loop ''/cwd'' None dcm2nii_init [''Chris Rorden's dcm2nii''] = Inr dcm2nii_init"
    by code_simp
  have reach: "\<not> skip dcm2nii_init"
    by (simp add: dcm2nii_init_def)
  have quiet: "list_all (\<lambda>line. \<not> re_search_arrow line) [''done'']"
    by code_simp
  then have post: "\<forall>line \<in> set [''done'']. re_search_arrow line \<longrightarrow> str_contains line ''--> ''"
    by simp
  from saving_then_directions [OF lines pre reach post] lines pre reach quiet
  show ?thesis by blast
qed

text \<open>
  The claim as it is written fails when the \<^verbatim>\<open>Saving\<close> line is itself the continuation
  line of a \<^verbatim>\<open>Reorienting as\<close> line: it is skipped, and the following line finds no last
  added file.
\<close>

theorem saving_then_directions_counterexample:
  "split_on CHR 0x0A
     ''Reorienting as /tmp/out/x\<newline>Saving /tmp/out/img.nii\<newline>Number of diffusion directions 32''
     = [''Reorienting as /tmp/out/x'', ''Saving /tmp/out/img.nii'',
        ''Number of diffusion directions 32'']
   \<and> Dcm2nii_parse_stdout ''/cwd'' None
     ''Reorienting as /tmp/out/x\<newline>Saving /tmp/out/img.nii\<newline>Number of diffusion directions 32''
     = Inr ([], [''/tmp/out/x''], [], [], [])"
  by code_simp

section \<open>Dcm2nii: the continuation line after a reorientation\<close>

lemma dcm2nii_step_Reorienting:
  assumes "\<not> skip s"
  shows "dcm2nii_step cwd od s ''Reorienting as /tmp/out/img_reo''
           = Inr (s\<lparr>reoriented_files := reoriented_files s @ [''/tmp/out/img_reo''],
                     skip := True\<rparr>)"
  using assms
  by (simp add: dcm2nii_step_def dcm2nii_file_def startswith_def truthy_def
      re_search_arrow_def)

lemma dcm2nii_step_keeps_reoriented:
  assumes "dcm2nii_step cwd od s line = Inr s'"
  shows "set (reoriented_files s) \<subseteq> set (reoriented_files s')"
  using assms
  by (auto simp: dcm2nii_step_def dcm2nii_file_def
      split: if_splits option.splits prod.splits sum.splits)

lemma dcm2nii_loop_keeps_reoriented:
  assumes "dcm2nii_loop cwd od s ls = Inr s'"
  shows "set (reoriented_files s) \<subseteq> set (reoriented_files s')"
  using assms
proof (induction ls arbitrary: s)
  case Nil
  then show ?case by simp
next
  case (Cons l ls)
  then obtain s1 where s1: "dcm2nii_step cwd od s l = Inr s1"
    and rest: "dcm2nii_loop cwd od s1 ls = Inr s'"
    by (auto split: sum.splits)
  from dcm2nii_step_keeps_reoriented [OF s1] Cons.IH [OF rest] show ?case by blast
qed

text \<open>
  C4, as the code has it. A line scanned with the skip flag set is discarded whatever it
  is: the step returns the same lists and only clears the flag, so it adds no entry,
  raises nothing and sets no new skip. Hence, whenever the scan reaches the line
  \<^verbatim>\<open>Reorienting as /tmp/out/img_reo\<close> with the skip flag clear, that line and the line
  after it add the one entry \<^verbatim>\<open>/tmp/out/img_reo\<close> to the reoriented files and nothing
  else, and the scan of the rest of the output goes on from there with the flag clear;
  when no later line fails the arrow extraction the scraper returns with that entry
  among the reoriented files. On the output made of these two lines alone the scraper
  returns exactly that one entry.
\<close>

theorem reorienting_continuation:
  "(skip s \<longrightarrow> dcm2nii_step cwd od s line = Inr (s\<lparr>skip := False\<rparr>))
   \<and> (\<not> skip s \<longrightarrow>
        dcm2nii_loop cwd od s [''Reorienting as /tmp/out/img_reo'', line]
          = Inr (s\<lparr>reoriented_files := reoriented_files s @ [''/tmp/out/img_reo''],
                    skip := False\<rparr>))
   \<and> (split_on CHR 0x0A stdout = pre @ [''Reorienting as /tmp/out/img_reo'', line] @ post
        \<and> dcm2nii_loop cwd od dcm2nii_init pre = Inr s \<and> \<not> skip s
      \<longrightarrow> dcm2nii_loop cwd od dcm2nii_init (split_on CHR 0x0A stdout)
          = dcm2nii_loop cwd od
              (s\<lparr>reoriented_files := reoriented_files s @ [''/tmp/out/img_reo''],
                 skip := False\<rparr>) post)
   \<and> (split_on CHR 0x0A stdout = pre @ [''Reorienting as /tmp/out/img_reo'', line] @ post
        \<and> dcm2nii_loop cwd od dcm2nii_init pre = Inr s \<and> \<not> skip s
        \<and> (\<forall>l \<in> set post. re_search_arrow l \<longrightarrow> str_contains l ''--> '')
      \<longrightarrow> (\<exists>fs rs cs bvecs' bvals'.
             Dcm2nii_parse_stdout cwd od stdout = Inr (fs, rs, cs, bvecs', bvals')
           \<and> ''/tmp/out/img_reo'' \<in> set rs))
   \<and> (CHR 0x0A \<notin> set line \<longrightarrow>
        Dcm2nii_parse_stdout cwd od (''Reorienting as /tmp/out/img_reo'' @ CHR 0x0A # line)
          = Inr ([], [''/tmp/out/img_reo''], [], [], []))"
proof (intro conjI impI)
  assume "skip s"
  then show "dcm2nii_step cwd od s line = Inr (s\<lparr>skip := False\<rparr>)"
    by (rule dcm2nii_step_skip)
next
  assume "\<not> skip s"
  then show "dcm2nii_loop cwd od s [''Reorienting as /tmp/out/img_reo'', line]
          = Inr (s\<lparr>reoriented_files := reoriented_files s @ [''/tmp/out/img_reo''],
                    skip := False\<rparr>)"
    by (simp add: dcm2nii_step_Reorienting dcm2nii_step_skip)
next
  assume h: "split_on CHR 0x0A stdout = pre @ [''Reorienting as /tmp/out/img_reo'', line] @ post
        \<and> dcm2nii_loop cwd od dcm2nii_init pre = Inr s \<and> \<not> skip s"
  then show "dcm2nii_loop cwd od dcm2nii_init (split_on CHR 0x0A stdout)
          = dcm2nii_loop cwd od
              (s\<lparr>reoriented_files := reoriented_files s @ [''/tmp/out/img_reo''],
                 skip := False\<rparr>) post"
    by (simp add: dcm2nii_loop_append dcm2nii_step_Reorienting dcm2nii_step_skip)
next
  assume h: "split_on CHR 0x0A stdout = pre @ [''Reorienting as /tmp/out/img_reo'', line] @ post
        \<and> dcm2nii_loop cwd od dcm2nii_init pre = Inr s \<and> \<not> skip s
        \<and> (\<forall>l \<in> set post. re_search_arrow l \<longrightarrow> str_contains l ''--> '')"
  let ?s2 = "s\<lparr>reoriented_files := reoriented_files s @ [''/tmp/out/img_reo''],
               skip := False\<rparr>"
  from h have run: "dcm2nii_loop cwd od dcm2nii_init (split_on CHR 0x0A stdout)
          = dcm2nii_loop cwd od ?s2 post"
    by (simp add: dcm2nii_loop_append dcm2nii_step_Reorienting dcm2nii_step_skip)
  from h have "\<forall>l \<in> set post. re_search_arrow l \<longrightarrow> str_contains l ''--> ''"
    by simp
  from dcm2nii_loop_returns [OF this]
  obtain s3 where s3: "dcm2nii_loop cwd od ?s2 post = Inr s3" by blast
  have "''/tmp/out/img_reo'' \<in> set (reoriented_files ?s2)"
    by simp
  with dcm2nii_loop_keeps_reoriented [OF s3]
  have "''/tmp/out/img_reo'' \<in> set (reoriented_files s3)"
    by blast
  with run s3 show "\<exists>fs rs cs bvecs' bvals'.
             Dcm2nii_parse_stdout cwd od stdout = Inr (fs, rs, cs, bvecs', bvals')
           \<and> ''/tmp/out/img_reo'' \<in> set rs"
    by (simp add: Dcm2nii_parse_stdout_def)
next
  assume nl: "CHR 0x0A \<notin> set line"
  have "split_on CHR 0x0A (''Reorienting as /tmp/out/img_reo'' @ CHR 0x0A # line)
               = ''Reorienting as /tmp/out/img_reo'' # split_on CHR 0x0A line"
    by (rule split_on_append) simp
  then have "split_on CHR 0x0A (''Reorienting as /tmp/out/img_reo'' @ CHR 0x0A # line)
               = [''Reorienting as /tmp/out/img_reo'', line]"
    by (simp only: split_on_single [OF nl])
  moreover have "\<not> skip dcm2nii_init"
    by (simp add: dcm2nii_init_def)
  ultimately show "Dcm2nii_parse_stdout cwd od (''Reorienting as /tmp/out/img_reo'' @ CHR 0x0A # line)
          = Inr ([], [''/tmp/out/img_reo''], [], [], [])"
    by (simp add: Dcm2nii_parse_stdout_def dcm2nii_step_Reorienting dcm2nii_step_skip
        dcm2nii_init_def)
qed

theorem reorienting_continuation_witness:
  "skip (dcm2nii_init\<lparr>skip := True\<rparr>)
   \<and> dcm2nii_step ''/cwd'' None (dcm2nii_init\<lparr>skip := True\<rparr>) ''Reorienting as /a --> /b''
       = Inr dcm2nii_init
   \<and> \<not> skip dcm2nii_init
   \<and> dcm2nii_loop ''/cwd'' None dcm2nii_init
         [''Reorienting as /tmp/out/img_reo'', ''Reorienting as /a --> /b'']
       = Inr (dcm2nii_init\<lparr>reoriented_files := [''/tmp/out/img_reo'']\<rparr>)
   \<and> split_on CHR 0x0A
         ''Saving /tmp/out/f.nii\<newline>Reorienting as /tmp/out/img_reo\<newline>a-->b\<newline>done''
       = [''Saving /tmp/out/f.nii''] @ [''Reorienting as /tmp/out/img_reo'', ''a-->b'']
           @ [''done'']
   \<and> dcm2nii_loop ''/cwd'' None dcm2nii_init [''Saving /tmp/out/f.nii'']
       = Inr (dcm2nii_init\<lparr>files := [''/tmp/out/f.nii''],
                            last_added_file := Some ''/tmp/out/f.nii''\<rparr>)
   \<and> list_all (\<lambda>l. \<not> re_search_arrow l) [''done'']
   \<and> Dcm2nii_parse_stdout ''/cwd'' None
         ''Saving /tmp/out/f.nii\<newline>Reorienting as /tmp/out/img_reo\<newline>a-->b\<newline>done''
       = Inr ([''/tmp/out/f.nii''], [''/tmp/out/img_reo''], [], [], [])
   \<and> (\<exists>fs rs cs bvecs' bvals'.
         Dcm2nii_parse_stdout ''/cwd'' None
           ''Saving /tmp/out/f.nii\<newline>Reorienting as /tmp/out/img_reo\<newline>a-->b\<newline>done''
           = Inr (fs, rs, cs, bvecs', bvals')
       \<and> ''/tmp/out/img_reo'' \<in> set rs)
   \<and> CHR 0x0A \<notin> set ''Reorienting as /a --> /b''
   \<and> Dcm2nii_parse_stdout ''/cwd'' None
         ''Reorienting as /tmp/out/img_reo\<newline>Reorienting as /a --> /b''
       = Inr ([], [''/tmp/out/img_reo''], [], [], [])"
proof -
  let ?out = "''Saving /tmp/out/f.nii\<newline>Reorienting as /tmp/out/img_reo\<newline>a-->b\<newline>done''"
  let ?s = "dcm2nii_init\<lparr>files := [''/tmp/out/f.nii''],
                         last_added_file := Some ''/tmp/out/f.nii''\<rparr>"
  have a: "skip (dcm2nii_init\<lparr>skip := True\<rparr>)" by simp
  have b: "\<not> skip dcm2nii_init" by (simp add: dcm2nii_init_def)
  have c: "CHR 0x0A \<notin> set ''Reorienting as /a --> /b''" by simp
  have lines: "split_on CHR 0x0A ?out
       = [''Saving /tmp/out/f.nii''] @ [''Reorienting as /tmp/out/img_reo'', ''a-->b'']
           @ [''done'']"
    by code_simp
  have pre: "dcm2nii_loop ''/cwd'' None dcm2nii_init [''Saving /tmp/out/f.nii''] = Inr ?s"
    by code_simp
  have reach: "\<not> skip ?s" by (simp add: dcm2nii_init_def)
  have quiet: "list_all (\<lambda>l. \<not> re_search_arrow l) [''done'']"
    by code_simp
  then have post: "\<forall>l \<in> set [''done'']. re_search_arrow l \<longrightarrow> str_contains l ''--> ''"
    by simp
  have whole: "Dcm2nii_parse_stdout ''/cwd'' None ?out
       = Inr ([''/tmp/out/f.nii''], [''/tmp/out/img_reo''], [], [], [])"
    by code_simp
  note pair = reorienting_continuation [of _ "''/cwd''" None "''Reorienting as /a --> /b''"]
  have one: "dcm2nii_step ''/cwd'' None (dcm2nii_init\<lparr>skip := True\<rparr>)
               ''Reorienting as /a --> /b'' = Inr dcm2nii_init"
    using pair [of "dcm2nii_init\<lparr>skip := True\<rparr>", THEN conjunct1, THEN mp, OF a]
    by (simp add: dcm2nii_init_def)
  have two: "dcm2nii_loop ''/cwd'' None dcm2nii_init
         [''Reorienting as /tmp/out/img_reo'', ''Reorienting as /a --> /b'']
       = Inr (dcm2nii_init\<lparr>reoriented_files := [''/tmp/out/img_reo'']\<rparr>)"
    using pair [of dcm2nii_init, THEN conjunct2, THEN conjunct1, THEN mp, OF b]
    by (simp add: dcm2nii_init_def)
  have four: "\<exists>fs rs cs bvecs' bvals'.
         Dcm2nii_parse_stdout ''/cwd'' None ?out = Inr (fs, rs, cs, bvecs', bvals')
       \<and> ''/tmp/out/img_reo'' \<in> set rs"
    using reorienting_continuation
        [of ?s "''/cwd''" None "''a-->b''" ?out "[''Saving /tmp/out/f.nii'']" "[''done'']",
         THEN conjunct2, THEN conjunct2, THEN conjunct2, THEN conjunct1, THEN mp,
         OF conjI [OF lines conjI [OF pre conjI [OF reach post]]]]
    .
  have five: "Dcm2nii_parse_stdout ''/cwd'' None
         ''Reorienting as /tmp/out/img_reo\<newline>Reorienting as /a --> /b''
       = Inr ([], [''/tmp/out/img_reo''], [], [], [])"
    using pair [of dcm2nii_init, THEN conjunct2, THEN conjunct2, THEN conjunct2,
        THEN conjunct2, THEN mp, OF c]
    by simp
  from a one b two lines pre quiet whole four c five show ?thesis by blast
qed

text \<open>
  The claim as it is written fails when the \<^verbatim>\<open>Reorienting as\<close> line is itself the
  continuation line of a \<^verbatim>\<open>Cropping\<close> line: it is skipped and records nothing, and the line
  after it is classified and adds a converted file.
\<close>

theorem reorienting_continuation_counterexample:
  "split_on CHR 0x0A
     ''Cropping NIfTI/Analyze image /tmp/out/x.nii\<newline>Reorienting as /tmp/out/img_reo\<newline>Saving /tmp/out/f.nii''
     = [''Cropping NIfTI/Analyze image /tmp/out/x.nii'', ''Reorienting as /tmp/out/img_reo'',
        ''Saving /tmp/out/f.nii'']
   \<and> Dcm2nii_parse_stdout ''/cwd'' None
     ''Cropping NIfTI/Analyze image /tmp/out/x.nii\<newline>Reorienting as /tmp/out/img_reo\<newline>Saving /tmp/out/f.nii''
     = Inr ([''/tmp/out/f.nii''], [], [''/tmp/out/cx.nii''], [], [])"
  by code_simp

section \<open>Dcm2nii: an arrow without the space\<close>

lemma dcm2nii_step_arrow_raises:
  assumes "\<not> skip s"
    and "\<not> startswith line ''Saving ''" "\<not> startswith line ''GZip...''"
    and "\<not> startswith line ''Number of diffusion directions ''"
    and "re_search_arrow line" "\<not> str_contains line ''--> ''"
  shows "dcm2nii_step cwd od s line = Inl AttributeError"
  using assms after_last_None [of "''--> ''" line]
  by (simp add: dcm2nii_step_def dcm2nii_file_def re_search_arrow_group_def)

text \<open>
  C9. The scraper raises on some output: on the one line \<^verbatim>\<open>a-->b\<close> it raises
  \<^verbatim>\<open>AttributeError\<close>. In general, when the scan reaches with the skip flag clear a line
  that starts with none of \<^verbatim>\<open>Saving \<close>, \<^verbatim>\<open>GZip...\<close>, \<^verbatim>\<open>Number of diffusion directions \<close>,
  matches the recognition pattern (it contains the arrow) and not the extraction pattern
  (it does not contain the arrow followed by a space), the extraction search finds no
  match and the scraper raises instead of returning.
\<close>

theorem arrow_without_space_raises:
  "Dcm2nii_parse_stdout cwd od ''a-->b'' = Inl AttributeError
   \<and> (split_on CHR 0x0A stdout = pre @ [line] @ post
        \<and> dcm2nii_loop cwd od dcm2nii_init pre = Inr s \<and> \<not> skip s
        \<and> \<not> startswith line ''Saving '' \<and> \<not> startswith line ''GZip...''
        \<and> \<not> startswith line ''Number of diffusion directions ''
        \<and> re_search_arrow line \<and> \<not> str_contains line ''--> ''
      \<longrightarrow> re_search_arrow_group line = None
        \<and> Dcm2nii_parse_stdout cwd od stdout = Inl AttributeError)"
proof (intro conjI impI)
  have "dcm2nii_step cwd od dcm2nii_init ''a-->b'' = Inl AttributeError"
    by (rule dcm2nii_step_arrow_raises) (simp_all add: dcm2nii_init_def startswith_def re_search_arrow_def)
  then show "Dcm2nii_parse_stdout cwd od ''a-->b'' = Inl AttributeError"
    by (simp add: Dcm2nii_parse_stdout_def)
next
  assume h: "split_on CHR 0x0A stdout = pre @ [line] @ post
        \<and> dcm2nii_loop cwd od dcm2nii_init pre = Inr s \<and> \<not> skip s
        \<and> \<not> startswith line ''Saving '' \<and> \<not> startswith line ''GZip...''
        \<and> \<not> startswith line ''Number of diffusion directions ''
        \<and> re_search_arrow line \<and> \<not> str_contains line ''--> ''"
  then show "re_search_arrow_group line = None"
    by (simp add: re_search_arrow_group_def after_last_None)
  from h have "dcm2nii_step cwd od s line = Inl AttributeError"
    by (intro dcm2nii_step_arrow_raises) simp_all
  with h show "Dcm2nii_parse_stdout cwd od stdout = Inl AttributeError"
    by (simp add: Dcm2nii_parse_stdout_def dcm2nii_loop_append)
qed

theorem arrow_without_space_raises_witness:
  "split_on CHR 0x0A ''Saving /a.nii\<newline>/x.dcm-->/y.nii\<newline>done''
     = [''Saving /a.nii''] @ [''/x.dcm-->/y.nii''] @ [''done'']
   \<and> dcm2nii_loop ''/cwd'' None dcm2nii_init [''Saving /a.nii'']
       = Inr (dcm2nii_init\<lparr>files := [''/a.nii''], last_added_file := Some ''/a.nii''\<rparr>)
   \<and> \<not> skip (dcm2nii_init\<lparr>files := [''/a.nii''], last_added_file := Some ''/a.nii''\<rparr>)
   \<and> \<not> startswith ''/x.dcm-->/y.nii'' ''Saving '' \<and> \<not> startswith ''/x.dcm-->/y.nii'' ''GZip...''
   \<and> \<not> startswith ''/x.dcm-->/y.nii'' ''Number of diffusion directions ''
   \<and> re_search_arrow ''/x.dcm-->/y.nii'' \<and> \<not> str_contains ''/x.dcm-->/y.nii'' ''--> ''
   \<and> re_search_arrow_group ''/x.dcm-->/y.nii'' = None
   \<and> Dcm2nii_parse_stdout ''/cwd'' None ''Saving /a.nii\<newline>/x.dcm-->/y.nii\<newline>done''
       = Inl AttributeError"
proof -
  have h: "split_on CHR 0x0A ''Saving /a.nii\<newline>/x.dcm-->/y.nii\<newline>done''
     = [''Saving /a.nii''] @ [''/x.dcm-->/y.nii''] @ [''done'']
   \<and> dcm2nii_loop ''/cwd'' None dcm2nii_init [''Saving /a.nii'']
       = Inr (dcm2nii_init\<lparr>files := [''/a.nii''], last_added_file := Some ''/a.nii''\<rparr>)
   \<and> \<not> skip (dcm2nii_init\<lparr>files := [''/a.nii''], last_added_file := Some ''/a.nii''\<rparr>)
   \<and> \<not> startswith ''/x.dcm-->/y.nii'' ''Saving '' \<and> \<not> startswith ''/x.dcm-->/y.nii'' ''GZip...''
   \<and> \<not> startswith ''/x.dcm-->/y.nii'' ''Number of diffusion directions ''
   \<and> re_search_arrow ''/x.dcm-->/y.nii'' \<and> \<not> str_contains ''/x.dcm-->/y.nii'' ''--> ''"
    by code_simp
  from arrow_without_space_raises
         [of "''/cwd''" None "''Saving /a.nii\<newline>/x.dcm-->/y.nii\<newline>done''"
             "[''Saving /a.nii'']" "''/x.dcm-->/y.nii''" "[''done'']"
             "dcm2nii_init\<lparr>files := [''/a.nii''], last_added_file := Some ''/a.nii''\<rparr>"]
       h
  show ?thesis by blast
qed

section \<open>Dcm2niix: properties of the loop\<close>

lemma normpath_not_Nil: "normpath p \<noteq> []"
  by (simp add: normpath_def Let_def)

lemma abspath_not_Nil: "abspath cwd p \<noteq> []"
  by (simp add: abspath_def normpath_not_Nil)

lemma dcm2niix_step_Convert:
  assumes "\<not> x_skip s" "startswith line ''Convert ''" "re_search_path line = Some fname"
    and "out = abspath cwd (path_join (gen_output_dir cwd (output_dir inputs)) fname)"
  shows "dcm2niix_step cwd inputs s line =
           Inr (s\<lparr>x_bvecs := x_bvecs s @ (if x_find_b s then [out @ ''.bvec''] else []),
                   x_bvals := x_bvals s @ (if x_find_b s then [out @ ''.bval''] else []),
                   x_find_b := False,
                   x_files := x_files s
                      @ [out @ (if compress inputs = Compress_n then ''.nii'' else ''.nii.gz'')],
                   x_bids := x_bids s @ (if bids_format inputs then [out @ ''.json''] else [])\<rparr>)"
  using assms abspath_not_Nil [of cwd "path_join (gen_output_dir cwd (output_dir inputs)) fname"]
  by (simp add: dcm2niix_step_def dcm2niix_out_file_def truthy_def Let_def)

lemma dcm2niix_step_other:
  assumes "\<not> x_skip s" "\<not> startswith line ''Convert ''"
  shows "dcm2niix_step cwd inputs s line =
           Inr (s\<lparr>x_find_b := x_find_b s \<or> str_contains line ''DTI gradients''
                                 \<or> str_contains line ''DTI gradient directions''\<rparr>)"
  using assms by (simp add: dcm2niix_step_def dcm2niix_out_file_def truthy_def)

lemma dcm2niix_step_raises:
  assumes "\<not> x_skip s" "startswith line ''Convert ''" "re_search_path line = None"
  shows "dcm2niix_step cwd inputs s line = Inl AttributeError"
  using assms by (simp add: dcm2niix_step_def dcm2niix_out_file_def)

lemma dcm2niix_step_cases:
  assumes "\<not> x_skip s"
  obtains (raises) "startswith line ''Convert ''" "re_search_path line = None"
      "dcm2niix_step cwd inputs s line = Inl AttributeError"
  | (convert) out where "startswith line ''Convert ''"
      "dcm2niix_step cwd inputs s line =
           Inr (s\<lparr>x_bvecs := x_bvecs s @ (if x_find_b s then [out @ ''.bvec''] else []),
                   x_bvals := x_bvals s @ (if x_find_b s then [out @ ''.bval''] else []),
                   x_find_b := False,
                   x_files := x_files s
                      @ [out @ (if compress inputs = Compress_n then ''.nii'' else ''.nii.gz'')],
                   x_bids := x_bids s @ (if bids_format inputs then [out @ ''.json''] else [])\<rparr>)"
  | (other) "\<not> startswith line ''Convert ''"
      "dcm2niix_step cwd inputs s line =
           Inr (s\<lparr>x_find_b := x_find_b s \<or> str_contains line ''DTI gradients''
                                 \<or> str_contains line ''DTI gradient directions''\<rparr>)"
proof (cases "startswith line ''Convert ''")
  case True
  show ?thesis
  proof (cases "re_search_path line")
    case None
    with True assms show ?thesis
      by (intro raises dcm2niix_step_raises)
  next
    case (Some fname)
    from dcm2niix_step_Convert [OF assms True Some refl] True show ?thesis
      by (rule convert [rotated])
  qed
next
  case False
  with assms show ?thesis
    by (intro other dcm2niix_step_other)
qed

lemma dcm2niix_step_no_skip:
  assumes "\<not> x_skip s" "dcm2niix_step cwd inputs s line = Inr s'"
  shows "\<not> x_skip s'"
  using assms(1)
  by (cases rule: dcm2niix_step_cases [of s line cwd inputs]) (use assms in auto)

lemma dcm2niix_loop_no_skip:
  assumes "\<not> x_skip s" "dcm2niix_loop cwd inputs s ls = Inr s'"
  shows "\<not> x_skip s'"
  using assms
proof (induction ls arbitrary: s)
  case Nil
  then show ?case by simp
next
  case (Cons l ls)
  then obtain s1 where s1: "dcm2niix_step cwd inputs s l = Inr s1"
    and rest: "dcm2niix_loop cwd inputs s1 ls = Inr s'"
    by (auto split: sum.splits)
  from Cons.IH [OF dcm2niix_step_no_skip [OF Cons.prems(1) s1] rest] show ?case .
qed

lemma dcm2niix_loop_returns:
  assumes "\<not> x_skip s"
    and "\<forall>line \<in> set ls. startswith line ''Convert '' \<longrightarrow> re_search_path line \<noteq> None"
  shows "\<exists>s'. dcm2niix_loop cwd inputs s ls = Inr s'"
  using assms
proof (induction ls arbitrary: s)
  case Nil
  then show ?case by simp
next
  case (Cons l ls)
  from Cons.prems(1) obtain s1 where s1: "dcm2niix_step cwd inputs s l = Inr s1"
    by (cases rule: dcm2niix_step_cases [of s l cwd inputs]) (use Cons.prems(2) in auto)
  from Cons.IH [OF dcm2niix_step_no_skip [OF Cons.prems(1) s1]] Cons.prems(2) s1
  show ?case by simp
qed

text \<open>
  The converted files and the sidecars are built from one list of output paths; the
  gradient lists only grow.
\<close>

lemma dcm2niix_loop_outs:
  assumes "\<not> x_skip s" "dcm2niix_loop cwd inputs s ls = Inr s'"
  shows "\<exists>outs. x_files s' = x_files s
             @ map (\<lambda>out. out @ (if compress inputs = Compress_n then ''.nii'' else ''.nii.gz'')) outs
           \<and> x_bids s' = x_bids s
             @ (if bids_format inputs then map (\<lambda>out. out @ ''.json'') outs else [])"
  using assms
proof (induction ls arbitrary: s)
  case Nil
  then show ?case by simp
next
  case (Cons l ls)
  then obtain s1 where s1: "dcm2niix_step cwd inputs s l = Inr s1"
    and rest: "dcm2niix_loop cwd inputs s1 ls = Inr s'"
    by (auto split: sum.splits)
  from Cons.IH [OF dcm2niix_step_no_skip [OF Cons.prems(1) s1] rest]
  obtain outs where outs: "x_files s' = x_files s1
             @ map (\<lambda>out. out @ (if compress inputs = Compress_n then ''.nii'' else ''.nii.gz'')) outs"
    "x_bids s' = x_bids s1
             @ (if bids_format inputs then map (\<lambda>out. out @ ''.json'') outs else [])"
    by blast
  from Cons.prems(1) show ?case
  proof (cases rule: dcm2niix_step_cases [of s l cwd inputs])
    case raises
    with s1 show ?thesis by simp
  next
    case (convert out)
    with s1 outs show ?thesis
      by (intro exI [of _ "out # outs"]) auto
  next
    case other
    with s1 outs show ?thesis
      by (intro exI [of _ outs]) auto
  qed
qed

lemma dcm2niix_loop_grows:
  assumes "\<not> x_skip s" "dcm2niix_loop cwd inputs s ls = Inr s'"
  shows "set (x_bvecs s) \<subseteq> set (x_bvecs s') \<and> set (x_bvals s) \<subseteq> set (x_bvals s')"
  using assms
proof (induction ls arbitrary: s)
  case Nil
  then show ?case by simp
next
  case (Cons l ls)
  then obtain s1 where s1: "dcm2niix_step cwd inputs s l = Inr s1"
    and rest: "dcm2niix_loop cwd inputs s1 ls = Inr s'"
    by (auto split: sum.splits)
  have "set (x_bvecs s) \<subseteq> set (x_bvecs s1) \<and> set (x_bvals s) \<subseteq> set (x_bvals s1)"
    using Cons.prems(1)
    by (cases rule: dcm2niix_step_cases [of s l cwd inputs]) (use s1 in auto)
  with Cons.IH [OF dcm2niix_step_no_skip [OF Cons.prems(1) s1] rest] show ?case by blast
qed

lemma dcm2niix_loop_no_Convert:
  assumes "\<not> x_skip s" "\<forall>line \<in> set ls. \<not> startswith line ''Convert ''"
  shows "\<exists>b. dcm2niix_loop cwd inputs s ls = Inr (s\<lparr>x_find_b := b\<rparr>)"
  using assms
proof (induction ls arbitrary: s)
  case Nil
  have "s = s\<lparr>x_find_b := x_find_b s\<rparr>" by simp
  then show ?case by (metis dcm2niix_loop.simps(1))
next
  case (Cons l ls)
  let ?s1 = "s\<lparr>x_find_b := x_find_b s \<or> str_contains l ''DTI gradients''
                                 \<or> str_contains l ''DTI gradient directions''\<rparr>"
  have s1: "dcm2niix_step cwd inputs s l = Inr ?s1"
    using Cons.prems by (intro dcm2niix_step_other) simp_all
  have "\<not> x_skip ?s1" using Cons.prems(1) by simp
  from Cons.IH [OF this] Cons.prems(2)
  obtain b where "dcm2niix_loop cwd inputs ?s1 ls = Inr (?s1\<lparr>x_find_b := b\<rparr>)"
    by auto
  with s1 show ?case by auto
qed

section \<open>Dcm2niix: converted files, extensions and sidecars\<close>

lemma re_search_path_img: "re_search_path ''Convert SUBJ/img'' = Some ''SUBJ/img''"
  by code_simp

lemma abspath_data_out_img:
  "abspath cwd (path_join ''/data/out'' ''SUBJ/img'') = ''/data/out/SUBJ/img''"
proof -
  have "path_join ''/data/out'' ''SUBJ/img'' = ''/data/out/SUBJ/img''"
    by code_simp
  moreover have "normpath ''/data/out/SUBJ/img'' = ''/data/out/SUBJ/img''"
    by code_simp
  ultimately show ?thesis
    by (simp add: abspath_def startswith_def)
qed

text \<open>
  C3. Whenever the scraper returns, its converted files are the output paths with the
  extension \<^verbatim>\<open>.nii\<close> when \<^verbatim>\<open>compress\<close> is \<^verbatim>\<open>'n'\<close> and \<^verbatim>\<open>.nii.gz\<close> otherwise, and when
  \<^verbatim>\<open>bids_format\<close> is set its sidecars are the same output paths, one for each converted
  file, with the extension \<^verbatim>\<open>.json\<close>. With the output directory \<^verbatim>\<open>/data/out\<close> (the
  input, or the working directory when the input is undefined), a line
  \<^verbatim>\<open>Convert SUBJ/img\<close> among lines that do not raise makes the scraper return with
  \<^verbatim>\<open>/data/out/SUBJ/img\<close> among the output paths, hence with \<^verbatim>\<open>/data/out/SUBJ/img.nii\<close>
  among the converted files when \<^verbatim>\<open>compress\<close> is \<^verbatim>\<open>'n'\<close> and \<^verbatim>\<open>/data/out/SUBJ/img.nii.gz\<close>
  otherwise; with \<^verbatim>\<open>compress\<close> \<^verbatim>\<open>'n'\<close> the entry \<^verbatim>\<open>/data/out/SUBJ/img.nii.gz\<close> is not among
  them.
\<close>

theorem convert_extension_and_sidecar:
  "(Dcm2niix_parse_stdout cwd inputs stdout = Inr r \<longrightarrow>
      (\<exists>outs.
         r_files r = map (\<lambda>out. out @ (if compress inputs = Compress_n then ''.nii'' else ''.nii.gz'')) outs
       \<and> (bids_format inputs \<and> outs \<noteq> [] \<longrightarrow>
            r = Tuple4 (r_files r) (r_bvecs r) (r_bvals r) (map (\<lambda>out. out @ ''.json'') outs))))
   \<and> (split_on CHR 0x0A stdout = pre @ [''Convert SUBJ/img''] @ post
        \<and> gen_output_dir cwd (output_dir inputs) = ''/data/out''
        \<and> (\<forall>line \<in> set (pre @ post). startswith line ''Convert '' \<longrightarrow> re_search_path line \<noteq> None)
      \<longrightarrow> (\<exists>r' outs.
             Dcm2niix_parse_stdout cwd inputs stdout = Inr r'
           \<and> r_files r' = map (\<lambda>out. out @ (if compress inputs = Compress_n then ''.nii'' else ''.nii.gz'')) outs
           \<and> ''/data/out/SUBJ/img'' \<in> set outs
           \<and> (if compress inputs = Compress_n then ''/data/out/SUBJ/img.nii''
               else ''/data/out/SUBJ/img.nii.gz'') \<in> set (r_files r')
           \<and> (compress inputs = Compress_n \<longrightarrow> ''/data/out/SUBJ/img.nii.gz'' \<notin> set (r_files r'))
           \<and> (bids_format inputs \<longrightarrow>
                r' = Tuple4 (r_files r') (r_bvecs r') (r_bvals r') (map (\<lambda>out. out @ ''.json'') outs))))"
proof (intro conjI impI)
  assume ret: "Dcm2niix_parse_stdout cwd inputs stdout = Inr r"
  then obtain s where s: "dcm2niix_loop cwd inputs dcm2niix_init (split_on CHR 0x0A stdout) = Inr s"
    and r: "r = (if x_bids s = [] then Tuple3 (x_files s) (x_bvecs s) (x_bvals s)
                 else Tuple4 (x_files s) (x_bvecs s) (x_bvals s) (x_bids s))"
    by (auto simp: Dcm2niix_parse_stdout_def split: sum.splits if_splits)
  have "\<not> x_skip dcm2niix_init" by (simp add: dcm2niix_init_def)
  from dcm2niix_loop_outs [OF this s]
  obtain outs where outs:
    "x_files s = map (\<lambda>out. out @ (if compress inputs = Compress_n then ''.nii'' else ''.nii.gz'')) outs"
    "x_bids s = (if bids_format inputs then map (\<lambda>out. out @ ''.json'') outs else [])"
    by (auto simp: dcm2niix_init_def)
  show "\<exists>outs.
         r_files r = map (\<lambda>out. out @ (if compress inputs = Compress_n then ''.nii'' else ''.nii.gz'')) outs
       \<and> (bids_format inputs \<and> outs \<noteq> [] \<longrightarrow>
            r = Tuple4 (r_files r) (r_bvecs r) (r_bvals r) (map (\<lambda>out. out @ ''.json'') outs))"
    using outs r by (intro exI [of _ outs]) auto
next
  assume h: "split_on CHR 0x0A stdout = pre @ [''Convert SUBJ/img''] @ post
        \<and> gen_output_dir cwd (output_dir inputs) = ''/data/out''
        \<and> (\<forall>line \<in> set (pre @ post). startswith line ''Convert '' \<longrightarrow> re_search_path line \<noteq> None)"
  let ?ext = "if compress inputs = Compress_n then ''.nii'' else ''.nii.gz''"
  have init: "\<not> x_skip dcm2niix_init" by (simp add: dcm2niix_init_def)
  from h have "\<forall>line \<in> set pre. startswith line ''Convert '' \<longrightarrow> re_search_path line \<noteq> None"
    by simp
  from dcm2niix_loop_returns [OF init this]
  obtain s1 where s1: "dcm2niix_loop cwd inputs dcm2niix_init pre = Inr s1" by blast
  have ns1: "\<not> x_skip s1" by (rule dcm2niix_loop_no_skip [OF init s1])
  from dcm2niix_loop_outs [OF init s1]
  obtain outs1 where outs1: "x_files s1 = map (\<lambda>out. out @ ?ext) outs1"
    "x_bids s1 = (if bids_format inputs then map (\<lambda>out. out @ ''.json'') outs1 else [])"
    by (auto simp: dcm2niix_init_def)
  define s2 where "s2 =
     s1\<lparr>x_bvecs := x_bvecs s1 @ (if x_find_b s1 then [''/data/out/SUBJ/img'' @ ''.bvec''] else []),
        x_bvals := x_bvals s1 @ (if x_find_b s1 then [''/data/out/SUBJ/img'' @ ''.bval''] else []),
        x_find_b := False,
        x_files := x_files s1 @ [''/data/out/SUBJ/img'' @ ?ext],
        x_bids := x_bids s1 @ (if bids_format inputs then [''/data/out/SUBJ/img'' @ ''.json''] else [])\<rparr>"
  have "startswith ''Convert SUBJ/img'' ''Convert ''" by (simp add: startswith_def)
  from dcm2niix_step_Convert [OF ns1 this re_search_path_img, of "''/data/out/SUBJ/img''" cwd inputs]
  have st: "dcm2niix_step cwd inputs s1 ''Convert SUBJ/img'' = Inr s2"
    using h abspath_data_out_img [of cwd] unfolding s2_def by simp
  have ns2: "\<not> x_skip s2" using ns1 by (simp add: s2_def)
  from h have "\<forall>line \<in> set post. startswith line ''Convert '' \<longrightarrow> re_search_path line \<noteq> None"
    by simp
  from dcm2niix_loop_returns [OF ns2 this]
  obtain s3 where s3: "dcm2niix_loop cwd inputs s2 post = Inr s3" by blast
  from dcm2niix_loop_outs [OF ns2 s3]
  obtain outs3 where outs3: "x_files s3 = x_files s2 @ map (\<lambda>out. out @ ?ext) outs3"
    "x_bids s3 = x_bids s2 @ (if bids_format inputs then map (\<lambda>out. out @ ''.json'') outs3 else [])"
    by blast
  define outs where "outs = outs1 @ [''/data/out/SUBJ/img''] @ outs3"
  have files: "x_files s3 = map (\<lambda>out. out @ ?ext) outs"
    using outs1 outs3 by (simp add: s2_def outs_def)
  have bids: "x_bids s3 = (if bids_format inputs then map (\<lambda>out. out @ ''.json'') outs else [])"
    using outs1 outs3 by (simp add: s2_def outs_def)
  have run: "dcm2niix_loop cwd inputs dcm2niix_init (split_on CHR 0x0A stdout) = Inr s3"
    using h by (simp add: dcm2niix_loop_append s1 st s3)
  define r' where "r' = (if x_bids s3 = [] then Tuple3 (x_files s3) (x_bvecs s3) (x_bvals s3)
                 else Tuple4 (x_files s3) (x_bvecs s3) (x_bvals s3) (x_bids s3))"
  have ret: "Dcm2niix_parse_stdout cwd inputs stdout = Inr r'"
    using run by (simp add: Dcm2niix_parse_stdout_def r'_def)
  have rf: "r_files r' = map (\<lambda>out. out @ ?ext) outs"
    using files by (simp add: r'_def)
  have mem: "''/data/out/SUBJ/img'' \<in> set outs" by (simp add: outs_def)
  then have "''/data/out/SUBJ/img'' @ ?ext \<in> set (r_files r')"
    unfolding rf by (simp add: image_iff)
  then have ent: "(if compress inputs = Compress_n then ''/data/out/SUBJ/img.nii''
               else ''/data/out/SUBJ/img.nii.gz'') \<in> set (r_files r')"
    by (simp split: if_splits)
  have nogz: "compress inputs = Compress_n \<longrightarrow> ''/data/out/SUBJ/img.nii.gz'' \<notin> set (r_files r')"
  proof
    assume n: "compress inputs = Compress_n"
    show "''/data/out/SUBJ/img.nii.gz'' \<notin> set (r_files r')"
    proof
      assume "''/data/out/SUBJ/img.nii.gz'' \<in> set (r_files r')"
      then obtain out where "''/data/out/SUBJ/img.nii.gz'' = out @ ''.nii''"
        using n unfolding rf by auto
      then have "last ''/data/out/SUBJ/img.nii.gz'' = last (out @ ''.nii'')" by simp
      then show False by simp
    qed
  qed
  have sidecar: "bids_format inputs \<longrightarrow>
                r' = Tuple4 (r_files r') (r_bvecs r') (r_bvals r') (map (\<lambda>out. out @ ''.json'') outs)"
    using bids mem by (auto simp: r'_def)
  from ret rf mem ent nogz sidecar
  show "\<exists>r' outs.
             Dcm2niix_parse_stdout cwd inputs stdout = Inr r'
           \<and> r_files r' = map (\<lambda>out. out @ (if compress inputs = Compress_n then ''.nii'' else ''.nii.gz'')) outs
           \<and> ''/data/out/SUBJ/img'' \<in> set outs
           \<and> (if compress inputs = Compress_n then ''/data/out/SUBJ/img.nii''
               else ''/data/out/SUBJ/img.nii.gz'') \<in> set (r_files r')
           \<and> (compress inputs = Compress_n \<longrightarrow> ''/data/out/SUBJ/img.nii.gz'' \<notin> set (r_files r'))
           \<and> (bids_format inputs \<longrightarrow>
                r' = Tuple4 (r_files r') (r_bvecs r') (r_bvals r') (map (\<lambda>out. out @ ''.json'') outs))"
    by blast
qed

theorem convert_extension_and_sidecar_witness:
  "Dcm2niix_parse_stdout ''/cwd''
       \<lparr>output_dir = Some ''/data/out'', compress = Compress_n, bids_format = True\<rparr>
       ''Convert SUBJ/img''
     = Inr (Tuple4 [''/data/out/SUBJ/img.nii''] [] [] [''/data/out/SUBJ/img.json''])
   \<and> split_on CHR 0x0A ''Convert SUBJ/img'' = [] @ [''Convert SUBJ/img''] @ []
   \<and> gen_output_dir ''/cwd''
         (output_dir \<lparr>output_dir = Some ''/data/out'', compress = Compress_n, bids_format = True\<rparr>)
       = ''/data/out''
   \<and> (\<exists>r' outs.
         Dcm2niix_parse_stdout ''/cwd''
           \<lparr>output_dir = Some ''/data/out'', compress = Compress_n, bids_format = True\<rparr>
           ''Convert SUBJ/img'' = Inr r'
       \<and> r_files r' = map (\<lambda>out. out @ ''.nii'') outs
       \<and> ''/data/out/SUBJ/img'' \<in> set outs
       \<and> ''/data/out/SUBJ/img.nii'' \<in> set (r_files r')
       \<and> ''/data/out/SUBJ/img.nii.gz'' \<notin> set (r_files r')
       \<and> r' = Tuple4 (r_files r') (r_bvecs r') (r_bvals r') (map (\<lambda>out. out @ ''.json'') outs))"
proof -
  let ?inputs = "\<lparr>output_dir = Some ''/data/out'', compress = Compress_n, bids_format = True\<rparr>"
  have ret: "Dcm2niix_parse_stdout ''/cwd'' ?inputs ''Convert SUBJ/img''
     = Inr (Tuple4 [''/data/out/SUBJ/img.nii''] [] [] [''/data/out/SUBJ/img.json''])"
    by code_simp
  have lines: "split_on CHR 0x0A ''Convert SUBJ/img'' = [] @ [''Convert SUBJ/img''] @ []"
    by code_simp
  have od: "gen_output_dir ''/cwd'' (output_dir ?inputs) = ''/data/out''"
    by (simp add: gen_output_dir_def)
  have ok: "\<forall>line \<in> set ([] @ []). startswith line ''Convert '' \<longrightarrow> re_search_path line \<noteq> None"
    by simp
  note general = convert_extension_and_sidecar
         [of "''/cwd''" ?inputs "''Convert SUBJ/img''" _ "[]" "[]"]
  from general [THEN conjunct2, THEN mp, OF conjI [OF lines conjI [OF od ok]]]
  have "\<exists>r' outs.
         Dcm2niix_parse_stdout ''/cwd'' ?inputs ''Convert SUBJ/img'' = Inr r'
       \<and> r_files r' = map (\<lambda>out. out @ ''.nii'') outs
       \<and> ''/data/out/SUBJ/img'' \<in> set outs
       \<and> ''/data/out/SUBJ/img.nii'' \<in> set (r_files r')
       \<and> ''/data/out/SUBJ/img.nii.gz'' \<notin> set (r_files r')
       \<and> r' = Tuple4 (r_files r') (r_bvecs r') (r_bvals r') (map (\<lambda>out. out @ ''.json'') outs)"
    by simp
  with ret lines od show ?thesis by blast
qed

section \<open>Dcm2niix: the pending gradient flag\<close>

lemma re_search_path_dwi: "re_search_path ''Convert SUBJ/dwi'' = Some ''SUBJ/dwi''"
  by code_simp

lemma dcm2niix_step_marker:
  assumes "\<not> x_skip s" "\<not> startswith line ''Convert ''"
    and "str_contains line ''DTI gradients'' \<or> str_contains line ''DTI gradient directions''"
  shows "dcm2niix_step cwd inputs s line = Inr (s\<lparr>x_find_b := True\<rparr>)"
  using assms by (simp add: dcm2niix_step_other)

text \<open>
  C5, as the code has it. A line that contains \<^verbatim>\<open>DTI gradients\<close> or
  \<^verbatim>\<open>DTI gradient directions\<close> and does not itself start with \<^verbatim>\<open>Convert \<close> sets the pending
  flag. When the next line is \<^verbatim>\<open>Convert SUBJ/dwi\<close> and no other \<^verbatim>\<open>Convert\<close> line of the output
  lacks a path, the scraper returns, and with \<open>out\<close> the path \<^verbatim>\<open>SUBJ/dwi\<close> resolved against
  the output directory the gradient vector files contain \<open>out\<close> with \<^verbatim>\<open>.bvec\<close> appended and
  the gradient value files \<open>out\<close> with \<^verbatim>\<open>.bval\<close> appended. The two lines clear the flag
  again. A marker line after which no line starts with \<^verbatim>\<open>Convert \<close> leaves all four lists
  as they were.
\<close>

theorem gradient_marker_then_convert:
  "(\<not> x_skip s \<and> \<not> startswith marker ''Convert ''
      \<and> (str_contains marker ''DTI gradients'' \<or> str_contains marker ''DTI gradient directions'')
      \<and> out = abspath cwd (path_join (gen_output_dir cwd (output_dir inputs)) ''SUBJ/dwi'')
    \<longrightarrow> dcm2niix_loop cwd inputs s [marker, ''Convert SUBJ/dwi'']
          = Inr (s\<lparr>x_find_b := False,
                   x_bvecs := x_bvecs s @ [out @ ''.bvec''],
                   x_bvals := x_bvals s @ [out @ ''.bval''],
                   x_files := x_files s
                      @ [out @ (if compress inputs = Compress_n then ''.nii'' else ''.nii.gz'')],
                   x_bids := x_bids s @ (if bids_format inputs then [out @ ''.json''] else [])\<rparr>))
   \<and> (split_on CHR 0x0A stdout = pre @ [marker, ''Convert SUBJ/dwi''] @ post
      \<and> \<not> startswith marker ''Convert ''
      \<and> (str_contains marker ''DTI gradients'' \<or> str_contains marker ''DTI gradient directions'')
      \<and> (\<forall>line \<in> set (pre @ post). startswith line ''Convert '' \<longrightarrow> re_search_path line \<noteq> None)
      \<and> out = abspath cwd (path_join (gen_output_dir cwd (output_dir inputs)) ''SUBJ/dwi'')
    \<longrightarrow> (\<exists>r. Dcm2niix_parse_stdout cwd inputs stdout = Inr r
            \<and> out @ ''.bvec'' \<in> set (r_bvecs r) \<and> out @ ''.bval'' \<in> set (r_bvals r)))
   \<and> (\<not> x_skip s \<and> \<not> startswith marker ''Convert ''
      \<and> (\<forall>line \<in> set post. \<not> startswith line ''Convert '')
    \<longrightarrow> (\<exists>b. dcm2niix_loop cwd inputs s (marker # post) = Inr (s\<lparr>x_find_b := b\<rparr>)))"
proof (intro conjI impI)
  assume h: "\<not> x_skip s \<and> \<not> startswith marker ''Convert ''
      \<and> (str_contains marker ''DTI gradients'' \<or> str_contains marker ''DTI gradient directions'')
      \<and> out = abspath cwd (path_join (gen_output_dir cwd (output_dir inputs)) ''SUBJ/dwi'')"
  then have m: "dcm2niix_step cwd inputs s marker = Inr (s\<lparr>x_find_b := True\<rparr>)"
    by (intro dcm2niix_step_marker) simp_all
  have "\<not> x_skip (s\<lparr>x_find_b := True\<rparr>)" "startswith ''Convert SUBJ/dwi'' ''Convert ''"
    using h by (simp_all add: startswith_def)
  from dcm2niix_step_Convert [OF this re_search_path_dwi, of out cwd inputs] h
  have "dcm2niix_step cwd inputs (s\<lparr>x_find_b := True\<rparr>) ''Convert SUBJ/dwi''
          = Inr (s\<lparr>x_find_b := False,
                   x_bvecs := x_bvecs s @ [out @ ''.bvec''],
                   x_bvals := x_bvals s @ [out @ ''.bval''],
                   x_files := x_files s
                      @ [out @ (if compress inputs = Compress_n then ''.nii'' else ''.nii.gz'')],
                   x_bids := x_bids s @ (if bids_format inputs then [out @ ''.json''] else [])\<rparr>)"
    by simp
  with m show "dcm2niix_loop cwd inputs s [marker, ''Convert SUBJ/dwi'']
          = Inr (s\<lparr>x_find_b := False,
                   x_bvecs := x_bvecs s @ [out @ ''.bvec''],
                   x_bvals := x_bvals s @ [out @ ''.bval''],
                   x_files := x_files s
                      @ [out @ (if compress inputs = Compress_n then ''.nii'' else ''.nii.gz'')],
                   x_bids := x_bids s @ (if bids_format inputs then [out @ ''.json''] else [])\<rparr>)"
    by simp
next
  assume h: "split_on CHR 0x0A stdout = pre @ [marker, ''Convert SUBJ/dwi''] @ post
      \<and> \<not> startswith marker ''Convert ''
      \<and> (str_contains marker ''DTI gradients'' \<or> str_contains marker ''DTI gradient directions'')
      \<and> (\<forall>line \<in> set (pre @ post). startswith line ''Convert '' \<longrightarrow> re_search_path line \<noteq> None)
      \<and> out = abspath cwd (path_join (gen_output_dir cwd (output_dir inputs)) ''SUBJ/dwi'')"
  have init: "\<not> x_skip dcm2niix_init" by (simp add: dcm2niix_init_def)
  from h have "\<forall>line \<in> set pre. startswith line ''Convert '' \<longrightarrow> re_search_path line \<noteq> None"
    by simp
  from dcm2niix_loop_returns [OF init this]
  obtain s1 where s1: "dcm2niix_loop cwd inputs dcm2niix_init pre = Inr s1" by blast
  have ns1: "\<not> x_skip s1" by (rule dcm2niix_loop_no_skip [OF init s1])
  have m: "dcm2niix_step cwd inputs s1 marker = Inr (s1\<lparr>x_find_b := True\<rparr>)"
    using ns1 h by (intro dcm2niix_step_marker) simp_all
  define s2 where "s2 = s1\<lparr>x_find_b := False,
                   x_bvecs := x_bvecs s1 @ [out @ ''.bvec''],
                   x_bvals := x_bvals s1 @ [out @ ''.bval''],
                   x_files := x_files s1
                      @ [out @ (if compress inputs = Compress_n then ''.nii'' else ''.nii.gz'')],
                   x_bids := x_bids s1 @ (if bids_format inputs then [out @ ''.json''] else [])\<rparr>"
  have "\<not> x_skip (s1\<lparr>x_find_b := True\<rparr>)" "startswith ''Convert SUBJ/dwi'' ''Convert ''"
    using ns1 by (simp_all add: startswith_def)
  from dcm2niix_step_Convert [OF this re_search_path_dwi, of out cwd inputs] h
  have c: "dcm2niix_step cwd inputs (s1\<lparr>x_find_b := True\<rparr>) ''Convert SUBJ/dwi'' = Inr s2"
    by (simp add: s2_def)
  have ns2: "\<not> x_skip s2" using ns1 by (simp add: s2_def)
  from h have "\<forall>line \<in> set post. startswith line ''Convert '' \<longrightarrow> re_search_path line \<noteq> None"
    by simp
  from dcm2niix_loop_returns [OF ns2 this]
  obtain s3 where s3: "dcm2niix_loop cwd inputs s2 post = Inr s3" by blast
  have run: "dcm2niix_loop cwd inputs dcm2niix_init (split_on CHR 0x0A stdout) = Inr s3"
    using h by (simp add: dcm2niix_loop_append s1 m c s3)
  have "out @ ''.bvec'' \<in> set (x_bvecs s2)" "out @ ''.bval'' \<in> set (x_bvals s2)"
    by (simp_all add: s2_def)
  with dcm2niix_loop_grows [OF ns2 s3]
  have "out @ ''.bvec'' \<in> set (x_bvecs s3)" "out @ ''.bval'' \<in> set (x_bvals s3)"
    by blast+
  with run show "\<exists>r. Dcm2niix_parse_stdout cwd inputs stdout = Inr r
            \<and> out @ ''.bvec'' \<in> set (r_bvecs r) \<and> out @ ''.bval'' \<in> set (r_bvals r)"
    by (simp add: Dcm2niix_parse_stdout_def)
next
  assume h: "\<not> x_skip s \<and> \<not> startswith marker ''Convert ''
      \<and> (\<forall>line \<in> set post. \<not> startswith line ''Convert '')"
  then have "\<forall>line \<in> set (marker # post). \<not> startswith line ''Convert ''"
    by simp
  with h show "\<exists>b. dcm2niix_loop cwd inputs s (marker # post) = Inr (s\<lparr>x_find_b := b\<rparr>)"
    by (intro dcm2niix_loop_no_Convert) simp
qed

theorem gradient_marker_then_convert_witness:
  "split_on CHR 0x0A ''Found 31 DTI gradient directions\<newline>Convert SUBJ/dwi''
     = [] @ [''Found 31 DTI gradient directions'', ''Convert SUBJ/dwi''] @ []
   \<and> \<not> x_skip dcm2niix_init
   \<and> \<not> startswith ''Found 31 DTI gradient directions'' ''Convert ''
   \<and> str_contains ''Found 31 DTI gradient directions'' ''DTI gradient directions''
   \<and> abspath ''/cwd'' (path_join (gen_output_dir ''/cwd''
        (output_dir \<lparr>output_dir = Some ''/data/out'', compress = Compress_i, bids_format = False\<rparr>))
        ''SUBJ/dwi'') = ''/data/out/SUBJ/dwi''
   \<and> list_all (\<lambda>line. \<not> startswith line ''Convert '') [''done'']
   \<and> dcm2niix_loop ''/cwd''
        \<lparr>output_dir = Some ''/data/out'', compress = Compress_i, bids_format = False\<rparr>
        dcm2niix_init [''Found 31 DTI gradient directions'', ''Convert SUBJ/dwi'']
       = Inr (dcm2niix_init\<lparr>x_bvecs := [''/data/out/SUBJ/dwi.bvec''],
                             x_bvals := [''/data/out/SUBJ/dwi.bval''],
                             x_files := [''/data/out/SUBJ/dwi.nii.gz'']\<rparr>)
   \<and> (\<exists>r. Dcm2niix_parse_stdout ''/cwd''
             \<lparr>output_dir = Some ''/data/out'', compress = Compress_i, bids_format = False\<rparr>
             ''Found 31 DTI gradient directions\<newline>Convert SUBJ/dwi'' = Inr r
          \<and> ''/data/out/SUBJ/dwi.bvec'' \<in> set (r_bvecs r)
          \<and> ''/data/out/SUBJ/dwi.bval'' \<in> set (r_bvals r))
   \<and> (\<exists>b. dcm2niix_loop ''/cwd''
             \<lparr>output_dir = Some ''/data/out'', compress = Compress_i, bids_format = False\<rparr>
             dcm2niix_init [''Found 31 DTI gradient directions'', ''done'']
            = Inr (dcm2niix_init\<lparr>x_find_b := b\<rparr>))"
proof -
  let ?inputs = "\<lparr>output_dir = Some ''/data/out'', compress = Compress_i, bids_format = False\<rparr>"
  let ?marker = "''Found 31 DTI gradient directions''"
  have lines: "split_on CHR 0x0A ''Found 31 DTI gradient directions\<newline>Convert SUBJ/dwi''
     = [] @ [?marker, ''Convert SUBJ/dwi''] @ []"
    by code_simp
  have init: "\<not> x_skip dcm2niix_init" by (simp add: dcm2niix_init_def)
  have nc: "\<not> startswith ?marker ''Convert ''" by code_simp
  have mk: "str_contains ?marker ''DTI gradient directions''" by code_simp
  then have mk': "str_contains ?marker ''DTI gradients'' \<or> str_contains ?marker ''DTI gradient directions''"
    by simp
  have out: "abspath ''/cwd'' (path_join (gen_output_dir ''/cwd'' (output_dir ?inputs)) ''SUBJ/dwi'')
               = ''/data/out/SUBJ/dwi''"
    by code_simp
  have quiet: "list_all (\<lambda>line. \<not> startswith line ''Convert '') [''done'']"
    by code_simp
  then have post: "\<forall>line \<in> set [''done'']. \<not> startswith line ''Convert ''"
    by simp
  have ok: "\<forall>line \<in> set ([] @ []). startswith line ''Convert '' \<longrightarrow> re_search_path line \<noteq> None"
    by simp
  note general = gradient_marker_then_convert
      [of dcm2niix_init ?marker "''/data/out/SUBJ/dwi''" "''/cwd''" ?inputs _ "[]" _]
  have one: "dcm2niix_loop ''/cwd'' ?inputs dcm2niix_init [?marker, ''Convert SUBJ/dwi'']
       = Inr (dcm2niix_init\<lparr>x_bvecs := [''/data/out/SUBJ/dwi.bvec''],
                             x_bvals := [''/data/out/SUBJ/dwi.bval''],
                             x_files := [''/data/out/SUBJ/dwi.nii.gz'']\<rparr>)"
    using general [THEN conjunct1, THEN mp, OF conjI [OF init conjI [OF nc conjI [OF mk' out [symmetric]]]]]
    by (simp add: dcm2niix_init_def)
  have two: "\<exists>r. Dcm2niix_parse_stdout ''/cwd'' ?inputs
             ''Found 31 DTI gradient directions\<newline>Convert SUBJ/dwi'' = Inr r
          \<and> ''/data/out/SUBJ/dwi.bvec'' \<in> set (r_bvecs r)
          \<and> ''/data/out/SUBJ/dwi.bval'' \<in> set (r_bvals r)"
    using general [THEN conjunct2, THEN conjunct1, THEN mp,
        OF conjI [OF lines conjI [OF nc conjI [OF mk' conjI [OF ok out [symmetric]]]]]]
    by simp
  have three: "\<exists>b. dcm2niix_loop ''/cwd'' ?inputs dcm2niix_init [?marker, ''done'']
            = Inr (dcm2niix_init\<lparr>x_find_b := b\<rparr>)"
    using general [THEN conjunct2, THEN conjunct2, THEN mp, OF conjI [OF init conjI [OF nc post]]]
    by simp
  from lines init nc mk out quiet one two three show ?thesis by blast
qed

text \<open>
  The claim as it is written fails for a marker line that starts with \<^verbatim>\<open>Convert \<close>: the
  first branch classifies it as a converted file and the flag is not set.
\<close>

theorem gradient_marker_then_convert_counterexample:
  "str_contains ''Convert SUBJ/DTI gradients'' ''DTI gradients''
   \<and> split_on CHR 0x0A ''Convert SUBJ/DTI gradients\<newline>Convert SUBJ/dwi''
       = [''Convert SUBJ/DTI gradients'', ''Convert SUBJ/dwi'']
   \<and> Dcm2niix_parse_stdout ''/cwd''
        \<lparr>output_dir = Some ''/data/out'', compress = Compress_i, bids_format = False\<rparr>
        ''Convert SUBJ/DTI gradients\<newline>Convert SUBJ/dwi''
       = Inr (Tuple3 [''/data/out/SUBJ/DTI.nii.gz'', ''/data/out/SUBJ/dwi.nii.gz''] [] [])"
  by code_simp

section \<open>Dcm2niix: the arity of the returned tuple\<close>

text \<open>
  C8. The scraper returns the four-component tuple only when sidecar paths were
  collected, which needs \<^verbatim>\<open>bids_format\<close>; otherwise it returns three components. So with
  \<^verbatim>\<open>bids_format\<close> set and no line starting with \<^verbatim>\<open>Convert \<close> it returns three empty lists,
  and \<^verbatim>\<open>_run_interface\<close>, which unpacks four values there, raises \<^verbatim>\<open>ValueError\<close>.
\<close>

theorem variable_arity_unpacking:
  "(Dcm2niix_parse_stdout cwd inputs stdout = Inr (Tuple4 f bvec bval bids)
      \<longrightarrow> bids \<noteq> [] \<and> bids_format inputs)
   \<and> (Dcm2niix_parse_stdout cwd inputs stdout = Inr (Tuple3 f bvec bval) \<and> bids_format inputs
      \<longrightarrow> f = [] \<and> Dcm2niix_run_interface cwd inputs stdout = Inl ValueError)
   \<and> (bids_format inputs \<and> (\<forall>line \<in> set (split_on CHR 0x0A stdout). \<not> startswith line ''Convert '')
      \<longrightarrow> Dcm2niix_parse_stdout cwd inputs stdout = Inr (Tuple3 [] [] [])
        \<and> Dcm2niix_run_interface cwd inputs stdout = Inl ValueError)"
proof (intro conjI impI)
  have init: "\<not> x_skip dcm2niix_init" by (simp add: dcm2niix_init_def)
  {
    assume ret: "Dcm2niix_parse_stdout cwd inputs stdout = Inr (Tuple4 f bvec bval bids)"
    then obtain s where s: "dcm2niix_loop cwd inputs dcm2niix_init (split_on CHR 0x0A stdout) = Inr s"
      and b: "x_bids s \<noteq> []" "bids = x_bids s"
      by (auto simp: Dcm2niix_parse_stdout_def split: sum.splits if_splits)
    from b show "bids \<noteq> []" by simp
    from dcm2niix_loop_outs [OF init s] b show "bids_format inputs"
      by (auto simp: dcm2niix_init_def split: if_splits)
  }
  {
    assume h: "Dcm2niix_parse_stdout cwd inputs stdout = Inr (Tuple3 f bvec bval) \<and> bids_format inputs"
    then obtain s where s: "dcm2niix_loop cwd inputs dcm2niix_init (split_on CHR 0x0A stdout) = Inr s"
      and b: "x_bids s = []" "f = x_files s"
      by (auto simp: Dcm2niix_parse_stdout_def split: sum.splits if_splits)
    from dcm2niix_loop_outs [OF init s] b h show "f = []"
      by (auto simp: dcm2niix_init_def)
    from h show "Dcm2niix_run_interface cwd inputs stdout = Inl ValueError"
      by (simp add: Dcm2niix_run_interface_def)
  }
  {
    assume h: "bids_format inputs
               \<and> (\<forall>line \<in> set (split_on CHR 0x0A stdout). \<not> startswith line ''Convert '')"
    then obtain b where
      "dcm2niix_loop cwd inputs dcm2niix_init (split_on CHR 0x0A stdout)
         = Inr (dcm2niix_init\<lparr>x_find_b := b\<rparr>)"
      using dcm2niix_loop_no_Convert [OF init, of "split_on CHR 0x0A stdout" cwd inputs] by blast
    then show ret: "Dcm2niix_parse_stdout cwd inputs stdout = Inr (Tuple3 [] [] [])"
      by (simp add: Dcm2niix_parse_stdout_def dcm2niix_init_def)
    with h show "Dcm2niix_run_interface cwd inputs stdout = Inl ValueError"
      by (simp add: Dcm2niix_run_interface_def)
  }
qed

theorem variable_arity_unpacking_witness:
  "Dcm2niix_parse_stdout ''/cwd''
       \<lparr>output_dir = None, compress = Compress_i, bids_format = True\<rparr> ''Convert SUBJ/img''
     = Inr (Tuple4 [''/cwd/SUBJ/img.nii.gz''] [] [] [''/cwd/SUBJ/img.json''])
   \<and> [''/cwd/SUBJ/img.json''] \<noteq> []
   \<and> bids_format \<lparr>output_dir = None, compress = Compress_i, bids_format = True\<rparr>
   \<and> list_all (\<lambda>line. \<not> startswith line ''Convert '')
        (split_on CHR 0x0A ''Chris Rorden's dcm2niiX\<newline>No valid DICOM files were found'')
   \<and> Dcm2niix_parse_stdout ''/cwd''
       \<lparr>output_dir = None, compress = Compress_i, bids_format = True\<rparr>
       ''Chris Rorden's dcm2niiX\<newline>No valid DICOM files were found''
     = Inr (Tuple3 [] [] [])
   \<and> Dcm2niix_run_interface ''/cwd''
       \<lparr>output_dir = None, compress = Compress_i, bids_format = True\<rparr>
       ''Chris Rorden's dcm2niiX\<newline>No valid DICOM files were found''
     = Inl ValueError"
proof -
  let ?inputs = "\<lparr>output_dir = None, compress = Compress_i, bids_format = True\<rparr>"
  let ?quiet = "''Chris Rorden's dcm2niiX\<newline>No valid DICOM files were found''"
  have four: "Dcm2niix_parse_stdout ''/cwd'' ?inputs ''Convert SUBJ/img''
     = Inr (Tuple4 [''/cwd/SUBJ/img.nii.gz''] [] [] [''/cwd/SUBJ/img.json''])"
    by code_simp
  have bf: "bids_format ?inputs" by simp
  have quiet: "list_all (\<lambda>line. \<not> startswith line ''Convert '') (split_on CHR 0x0A ?quiet)"
    by code_simp
  then have nc: "\<forall>line \<in> set (split_on CHR 0x0A ?quiet). \<not> startswith line ''Convert ''"
    unfolding list_all_iff .
  from variable_arity_unpacking [of "''/cwd''" ?inputs "''Convert SUBJ/img''",
      THEN conjunct1, THEN mp, OF four]
  have a: "[''/cwd/SUBJ/img.json''] \<noteq> []" by simp
  from variable_arity_unpacking [of "''/cwd''" ?inputs ?quiet,
      THEN conjunct2, THEN conjunct2, THEN mp, OF conjI [OF bf nc]]
  have b: "Dcm2niix_parse_stdout ''/cwd'' ?inputs ?quiet = Inr (Tuple3 [] [] [])
         \<and> Dcm2niix_run_interface ''/cwd'' ?inputs ?quiet = Inl ValueError"
    .
  from four a bf quiet b show ?thesis by blast
qed

section \<open>Dcm2niix: a conversion line without a path\<close>

lemma tokens_from_sound:
  assumes "t \<in> set (tokens_from cur cs)" "\<forall>c \<in> set cur. \<not> is_space c"
  shows "(\<forall>c \<in> set t. \<not> is_space c) \<and> (\<exists>pre post. cur @ cs = pre @ t @ post)"
  using assms
proof (induction cs arbitrary: cur)
  case Nil
  then have "t = cur" by (auto split: if_splits)
  with Nil show ?case by (auto intro: exI [of _ "[]"])
next
  case (Cons c cs)
  show ?case
  proof (cases "is_space c")
    case False
    with Cons.prems have "t \<in> set (tokens_from (cur @ [c]) cs)"
      "\<forall>d \<in> set (cur @ [c]). \<not> is_space d"
      by simp_all
    from Cons.IH [OF this] show ?thesis by simp
  next
    case True
    show ?thesis
    proof (cases "t = cur \<and> cur \<noteq> []")
      case True
      have "cur @ c # cs = [] @ cur @ (c # cs)"
        by simp
      with True Cons.prems(2) show ?thesis by blast
    next
      case False
      with \<open>is_space c\<close> Cons.prems have "t \<in> set (tokens_from [] cs)"
        by (auto split: if_splits)
      from Cons.IH [OF this] obtain pre post where
        t: "\<forall>c \<in> set t. \<not> is_space c" and cs: "cs = pre @ t @ post"
        by auto
      have "cur @ c # cs = (cur @ c # pre) @ t @ post"
        by (simp add: cs)
      with t show ?thesis by blast
    qed
  qed
qed

lemma path_token_split:
  assumes "path_token t"
  shows "\<exists>a b. t = a @ CHR ''/'' # b \<and> a \<noteq> [] \<and> b \<noteq> []"
proof -
  from assms obtain x t' where t: "t = x # t'" and "CHR ''/'' \<in> set (butlast t')"
    by (cases t) (auto simp: path_token_def)
  then obtain u z where t': "t' = u @ [z]" and "CHR ''/'' \<in> set u"
    by (cases t' rule: rev_cases) auto
  then obtain u1 u2 where "u = u1 @ CHR ''/'' # u2"
    by (auto dest: split_list)
  with t t' have "t = (x # u1) @ CHR ''/'' # (u2 @ [z])"
    by simp
  then show ?thesis by blast
qed

text \<open>
  When the path search finds a match, the line holds a slash between two non-empty runs
  of non-space characters; so on a line without such a substring the search finds none.
\<close>

lemma re_search_path_sound:
  assumes "re_search_path line = Some t"
  shows "\<exists>pre a b post. line = pre @ a @ CHR ''/'' # b @ post \<and> a \<noteq> [] \<and> b \<noteq> []
           \<and> (\<forall>c \<in> set (a @ b). \<not> is_space c) \<and> t = a @ CHR ''/'' # b"
proof -
  from assms have mem: "t \<in> set (tokens_from [] line)" and pt: "path_token t"
    by (auto simp: re_search_path_def tokens_def find_Some_iff)
  from tokens_from_sound [OF mem] obtain pre post where
    ns: "\<forall>c \<in> set t. \<not> is_space c" and line: "line = pre @ t @ post"
    by auto
  from path_token_split [OF pt] obtain a b where
    t: "t = a @ CHR ''/'' # b" "a \<noteq> []" "b \<noteq> []"
    by blast
  from ns t have "\<forall>c \<in> set (a @ b). \<not> is_space c" by auto
  with line t show ?thesis by auto
qed

lemma tokens_from_complete:
  assumes "\<forall>c \<in> set cur. \<not> is_space c"
    and "cur @ cs = u @ w @ v" "w \<noteq> []" "\<forall>c \<in> set w. \<not> is_space c"
  shows "\<exists>t \<in> set (tokens_from cur cs). \<exists>u' v'. t = u' @ w @ v'"
  using assms
proof (induction cs arbitrary: cur u)
  case Nil
  then have "cur \<noteq> []" by auto
  with Nil show ?case by auto
next
  case (Cons c cs)
  show ?case
  proof (cases "is_space c")
    case False
    with Cons.prems have "\<forall>d \<in> set (cur @ [c]). \<not> is_space d" "(cur @ [c]) @ cs = u @ w @ v"
      by simp_all
    from Cons.IH [OF this Cons.prems(3,4)] False show ?thesis by simp
  next
    case True
    with Cons.prems(4) have cw: "c \<notin> set w" by blast
    from Cons.prems(2) consider
      (left) us where "cur = u @ us" "us @ c # cs = w @ v"
      | (right) us where "cur @ us = u" "c # cs = us @ w @ v"
      by (auto simp: append_eq_append_conv2)
    then show ?thesis
    proof cases
      case left
      from left(2) consider
        (inside) us2 where "us = w @ us2"
        | (across) ws where "w = us @ ws" "ws @ v = c # cs" "ws \<noteq> []"
        by (auto simp: append_eq_append_conv2) (metis append_Nil2)
      then show ?thesis
      proof cases
        case inside
        with left have "cur = u @ w @ us2" by simp
        moreover from this Cons.prems(3) have "cur \<noteq> []" by simp
        ultimately show ?thesis using True by auto
      next
        case across
        then have "c \<in> set w" by (cases ws) auto
        with cw show ?thesis by blast
      qed
    next
      case right
      show ?thesis
      proof (cases us)
        case Nil
        with right(2) Cons.prems(3) have "c \<in> set w" by (cases w) auto
        with cw show ?thesis by blast
      next
        case (Cons d us')
        with right(2) have "[] @ cs = us' @ w @ v" by simp
        from Cons.IH [OF _ this Cons.prems(3,4)] True show ?thesis by auto
      qed
    qed
  qed
qed

lemma re_search_path_complete:
  assumes "line = u @ a @ CHR ''/'' # b @ v" "a \<noteq> []" "b \<noteq> []"
    and "\<forall>c \<in> set (a @ b). \<not> is_space c"
  shows "re_search_path line \<noteq> None"
proof -
  have sl: "\<not> is_space CHR ''/''" by (simp add: is_space_def)
  have "[] @ line = u @ (a @ CHR ''/'' # b) @ v" using assms(1) by simp
  moreover have "\<forall>c \<in> set (a @ CHR ''/'' # b). \<not> is_space c" using assms(4) sl by auto
  ultimately obtain t u' v' where t: "t \<in> set (tokens_from [] line)"
    "t = u' @ (a @ CHR ''/'' # b) @ v'"
    using tokens_from_complete [of "[]" line u "a @ CHR ''/'' # b" v] by auto
  obtain x a' where a: "a = x # a'" using assms(2) by (cases a) auto
  obtain b' z where b: "b = b' @ [z]" using assms(3) by (cases b rule: rev_cases) auto
  have "CHR ''/'' \<in> set (butlast (tl t))"
  proof (cases u')
    case Nil
    show ?thesis
    proof (cases v' rule: rev_cases)
      case Nil
      with \<open>u' = []\<close> t(2) a b have "t = x # (a' @ CHR ''/'' # b') @ [z]" by simp
      then show ?thesis by (simp add: butlast_append)
    next
      case (snoc v'' y)
      with \<open>u' = []\<close> t(2) a have "t = x # (a' @ CHR ''/'' # b @ v'') @ [y]" by simp
      then show ?thesis by (simp add: butlast_append)
    qed
  next
    case (Cons y u'')
    show ?thesis
    proof (cases v' rule: rev_cases)
      case Nil
      with Cons t(2) b have "t = y # (u'' @ a @ CHR ''/'' # b') @ [z]" by simp
      then show ?thesis by (simp add: butlast_append)
    next
      case (snoc v'' y')
      with Cons t(2) have "t = y # (u'' @ a @ CHR ''/'' # b @ v'') @ [y']" by simp
      then show ?thesis by (simp add: butlast_append)
    qed
  qed
  then have "path_token t" by (simp add: path_token_def)
  with t(1) show ?thesis
    by (auto simp: re_search_path_def tokens_def find_None_iff)
qed

text \<open>
  The path search finds no match exactly on the lines without a slash between two
  non-empty runs of non-space characters.
\<close>

lemma re_search_path_None_iff:
  "re_search_path line = None \<longleftrightarrow>
     \<not> (\<exists>u a b v. line = u @ a @ CHR ''/'' # b @ v \<and> a \<noteq> [] \<and> b \<noteq> []
           \<and> (\<forall>c \<in> set (a @ b). \<not> is_space c))"
proof
  assume "re_search_path line = None"
  then show "\<not> (\<exists>u a b v. line = u @ a @ CHR ''/'' # b @ v \<and> a \<noteq> [] \<and> b \<noteq> []
           \<and> (\<forall>c \<in> set (a @ b). \<not> is_space c))"
    using re_search_path_complete by blast
next
  assume no: "\<not> (\<exists>u a b v. line = u @ a @ CHR ''/'' # b @ v \<and> a \<noteq> [] \<and> b \<noteq> []
           \<and> (\<forall>c \<in> set (a @ b). \<not> is_space c))"
  show "re_search_path line = None"
  proof (cases "re_search_path line")
    case None
    then show ?thesis .
  next
    case (Some t)
    from re_search_path_sound [OF this] no show ?thesis by blast
  qed
qed

text \<open>
  C10. The scraper raises on some output: on the one line \<^verbatim>\<open>Convert done\<close> it raises
  \<^verbatim>\<open>AttributeError\<close>. In general, when the lines before it are scanned without an
  exception, a line that starts with \<^verbatim>\<open>Convert \<close> and holds no slash between two non-empty
  runs of non-space characters makes the path search find no match, and the scraper
  raises instead of returning.
\<close>

theorem convert_without_path_raises:
  "re_search_path ''Convert done'' = None
   \<and> Dcm2niix_parse_stdout cwd inputs ''Convert done'' = Inl AttributeError
   \<and> (split_on CHR 0x0A stdout = pre @ [line] @ post
        \<and> dcm2niix_loop cwd inputs dcm2niix_init pre = Inr s
        \<and> startswith line ''Convert ''
        \<and> \<not> (\<exists>u a b v. line = u @ a @ CHR ''/'' # b @ v \<and> a \<noteq> [] \<and> b \<noteq> []
                 \<and> (\<forall>c \<in> set (a @ b). \<not> is_space c))
      \<longrightarrow> re_search_path line = None
        \<and> Dcm2niix_parse_stdout cwd inputs stdout = Inl AttributeError)"
proof (intro conjI impI)
  have init: "\<not> x_skip dcm2niix_init" by (simp add: dcm2niix_init_def)
  show none: "re_search_path ''Convert done'' = None"
    by code_simp
  have "startswith ''Convert done'' ''Convert ''"
    by (simp add: startswith_def)
  from dcm2niix_step_raises [OF init this none]
  show "Dcm2niix_parse_stdout cwd inputs ''Convert done'' = Inl AttributeError"
    by (simp add: Dcm2niix_parse_stdout_def)
  assume h: "split_on CHR 0x0A stdout = pre @ [line] @ post
        \<and> dcm2niix_loop cwd inputs dcm2niix_init pre = Inr s
        \<and> startswith line ''Convert ''
        \<and> \<not> (\<exists>u a b v. line = u @ a @ CHR ''/'' # b @ v \<and> a \<noteq> [] \<and> b \<noteq> []
                 \<and> (\<forall>c \<in> set (a @ b). \<not> is_space c))"
  show nomatch: "re_search_path line = None"
  proof (cases "re_search_path line")
    case None
    then show ?thesis .
  next
    case (Some t)
    from re_search_path_sound [OF this] h show ?thesis by blast
  qed
  from h have "\<not> x_skip s"
    using dcm2niix_loop_no_skip [OF init] by blast
  with h nomatch have "dcm2niix_step cwd inputs s line = Inl AttributeError"
    by (intro dcm2niix_step_raises) simp_all
  with h show "Dcm2niix_parse_stdout cwd inputs stdout = Inl AttributeError"
    by (simp add: Dcm2niix_parse_stdout_def dcm2niix_loop_append)
qed

theorem convert_without_path_raises_witness:
  "split_on CHR 0x0A ''Convert SUBJ/img\<newline>Convert 12 DICOM images\<newline>done''
     = [''Convert SUBJ/img''] @ [''Convert 12 DICOM images''] @ [''done'']
   \<and> dcm2niix_loop ''/cwd'' \<lparr>output_dir = None, compress = Compress_n, bids_format = False\<rparr>
        dcm2niix_init [''Convert SUBJ/img'']
       = Inr (dcm2niix_init\<lparr>x_files := [''/cwd/SUBJ/img.nii'']\<rparr>)
   \<and> startswith ''Convert 12 DICOM images'' ''Convert ''
   \<and> CHR ''/'' \<notin> set ''Convert 12 DICOM images''
   \<and> re_search_path ''Convert 12 DICOM images'' = None
   \<and> Dcm2niix_parse_stdout ''/cwd''
        \<lparr>output_dir = None, compress = Compress_n, bids_format = False\<rparr>
        ''Convert SUBJ/img\<newline>Convert 12 DICOM images\<newline>done''
       = Inl AttributeError"
proof -
  let ?inputs = "\<lparr>output_dir = None, compress = Compress_n, bids_format = False\<rparr>"
  have h: "split_on CHR 0x0A ''Convert SUBJ/img\<newline>Convert 12 DICOM images\<newline>done''
     = [''Convert SUBJ/img''] @ [''Convert 12 DICOM images''] @ [''done'']
   \<and> dcm2niix_loop ''/cwd'' ?inputs dcm2niix_init [''Convert SUBJ/img'']
       = Inr (dcm2niix_init\<lparr>x_files := [''/cwd/SUBJ/img.nii'']\<rparr>)
   \<and> startswith ''Convert 12 DICOM images'' ''Convert ''"
    by code_simp
  have noslash: "CHR ''/'' \<notin> set ''Convert 12 DICOM images''"
    by simp
  have nosub: "\<not> (\<exists>u a b v. ''Convert 12 DICOM images'' = u @ a @ CHR ''/'' # b @ v
                 \<and> a \<noteq> [] \<and> b \<noteq> [] \<and> (\<forall>c \<in> set (a @ b). \<not> is_space c))"
  proof
    assume "\<exists>u a b v. ''Convert 12 DICOM images'' = u @ a @ CHR ''/'' # b @ v
                 \<and> a \<noteq> [] \<and> b \<noteq> [] \<and> (\<forall>c \<in> set (a @ b). \<not> is_space c)"
    then obtain u a b v where "''Convert 12 DICOM images'' = u @ a @ CHR ''/'' # b @ v"
      by blast
    then have "CHR ''/'' \<in> set ''Convert 12 DICOM images''"
      by (metis in_set_conv_decomp append.assoc)
    with noslash show False by blast
  qed
  from convert_without_path_raises
         [of "''/cwd''" ?inputs "''Convert SUBJ/img\<newline>Convert 12 DICOM images\<newline>done''"
             "[''Convert SUBJ/img'']" "''Convert 12 DICOM images''" "[''done'']"
             "dcm2niix_init\<lparr>x_files := [''/cwd/SUBJ/img.nii'']\<rparr>",
          THEN conjunct2, THEN conjunct2, THEN mp] h nosub noslash
  show ?thesis by blast
qed

section \<open>The boolean flags are emitted for both truth values\<close>

text \<open>
  C6. Every field in the list of \<^verbatim>\<open>Dcm2nii._format_arg\<close> and every field in the list of
  \<^verbatim>\<open>Dcm2niix._format_arg\<close> is a boolean trait of the input specification, and for both
  truth values the emitted argument is the flag of the field followed by \<^verbatim>\<open> y\<close> for true
  and by \<^verbatim>\<open> n\<close> for false: the flag is emitted, not omitted, for a false value.
\<close>

theorem boolean_flags_emit_y_n:
  "(opt \<in> set [''gzip_output'', ''nii_output'', ''anonymize'', ''id_in_filename'',
                ''reorient'', ''reorient_and_crop'', ''convert_all_pars'']
      \<longrightarrow> (\<exists>spec. map_of Dcm2niiInputSpec opt = Some spec \<and> is_bool spec
            \<and> Dcm2nii_format_arg opt spec (PyBool b)
                = Some (argstr spec @ (if b then '' y'' else '' n''))))
   \<and> (opt \<in> set [''bids_format'', ''merge_imgs'', ''single_file'', ''verbose'', ''crop'',
                  ''has_private'']
      \<longrightarrow> (\<exists>spec. map_of Dcm2niixInputSpec opt = Some spec \<and> is_bool spec
            \<and> Dcm2niix_format_arg opt spec (PyBool b)
                = Inr (Some (argstr spec @ (if b then '' y'' else '' n'')))))"
proof -
  have nii: "list_all (\<lambda>opt. case map_of Dcm2niiInputSpec opt of
                 None \<Rightarrow> False
               | Some spec \<Rightarrow> is_bool spec
                   \<and> Dcm2nii_format_arg opt spec (PyBool True) = Some (argstr spec @ '' y'')
                   \<and> Dcm2nii_format_arg opt spec (PyBool False) = Some (argstr spec @ '' n''))
             [''gzip_output'', ''nii_output'', ''anonymize'', ''id_in_filename'',
              ''reorient'', ''reorient_and_crop'', ''convert_all_pars'']"
    by code_simp
  have niix: "list_all (\<lambda>opt. case map_of Dcm2niixInputSpec opt of
                 None \<Rightarrow> False
               | Some spec \<Rightarrow> is_bool spec
                   \<and> Dcm2niix_format_arg opt spec (PyBool True) = Inr (Some (argstr spec @ '' y''))
                   \<and> Dcm2niix_format_arg opt spec (PyBool False) = Inr (Some (argstr spec @ '' n'')))
             [''bids_format'', ''merge_imgs'', ''single_file'', ''verbose'', ''crop'',
              ''has_private'']"
    by code_simp
  show ?thesis
  proof (intro conjI impI)
    assume "opt \<in> set [''gzip_output'', ''nii_output'', ''anonymize'', ''id_in_filename'',
                ''reorient'', ''reorient_and_crop'', ''convert_all_pars'']"
    with nii have "case map_of Dcm2niiInputSpec opt of
                 None \<Rightarrow> False
               | Some spec \<Rightarrow> is_bool spec
                   \<and> Dcm2nii_format_arg opt spec (PyBool True) = Some (argstr spec @ '' y'')
                   \<and> Dcm2nii_format_arg opt spec (PyBool False) = Some (argstr spec @ '' n'')"
      unfolding list_all_iff by blast
    then show "\<exists>spec. map_of Dcm2niiInputSpec opt = Some spec \<and> is_bool spec
            \<and> Dcm2nii_format_arg opt spec (PyBool b)
                = Some (argstr spec @ (if b then '' y'' else '' n''))"
      by (cases "map_of Dcm2niiInputSpec opt"; cases b) simp_all
  next
    assume "opt \<in> set [''bids_format'', ''merge_imgs'', ''single_file'', ''verbose'', ''crop'',
                  ''has_private'']"
    with niix have "case map_of Dcm2niixInputSpec opt of
                 None \<Rightarrow> False
               | Some spec \<Rightarrow> is_bool spec
                   \<and> Dcm2niix_format_arg opt spec (PyBool True) = Inr (Some (argstr spec @ '' y''))
                   \<and> Dcm2niix_format_arg opt spec (PyBool False) = Inr (Some (argstr spec @ '' n''))"
      unfolding list_all_iff by blast
    then show "\<exists>spec. map_of Dcm2niixInputSpec opt = Some spec \<and> is_bool spec
            \<and> Dcm2niix_format_arg opt spec (PyBool b)
                = Inr (Some (argstr spec @ (if b then '' y'' else '' n'')))"
      by (cases "map_of Dcm2niixInputSpec opt"; cases b) simp_all
  qed
qed

theorem boolean_flags_emit_y_n_witness:
  "''gzip_output'' \<in> set [''gzip_output'', ''nii_output'', ''anonymize'', ''id_in_filename'',
                ''reorient'', ''reorient_and_crop'', ''convert_all_pars'']
   \<and> map_of Dcm2niiInputSpec ''gzip_output'' = Some \<lparr>argstr = ''-g'', is_bool = True\<rparr>
   \<and> Dcm2nii_format_arg ''gzip_output'' \<lparr>argstr = ''-g'', is_bool = True\<rparr> (PyBool False)
       = Some ''-g n''
   \<and> ''crop'' \<in> set [''bids_format'', ''merge_imgs'', ''single_file'', ''verbose'', ''crop'',
                  ''has_private'']
   \<and> map_of Dcm2niixInputSpec ''crop'' = Some \<lparr>argstr = ''-x'', is_bool = True\<rparr>
   \<and> Dcm2niix_format_arg ''crop'' \<lparr>argstr = ''-x'', is_bool = True\<rparr> (PyBool False)
       = Inr (Some ''-x n'')
   \<and> CommandLine_format_arg ''crop'' \<lparr>argstr = ''-x'', is_bool = True\<rparr> (PyBool False) = None"
proof -
  have a: "''gzip_output'' \<in> set [''gzip_output'', ''nii_output'', ''anonymize'',
      ''id_in_filename'', ''reorient'', ''reorient_and_crop'', ''convert_all_pars'']"
    by simp
  have b: "''crop'' \<in> set [''bids_format'', ''merge_imgs'', ''single_file'', ''verbose'',
      ''crop'', ''has_private'']"
    by simp
  have sa: "map_of Dcm2niiInputSpec ''gzip_output'' = Some \<lparr>argstr = ''-g'', is_bool = True\<rparr>"
    by (simp add: Dcm2niiInputSpec_def)
  have sb: "map_of Dcm2niixInputSpec ''crop'' = Some \<lparr>argstr = ''-x'', is_bool = True\<rparr>"
    by (simp add: Dcm2niixInputSpec_def)
  have base: "CommandLine_format_arg ''crop'' \<lparr>argstr = ''-x'', is_bool = True\<rparr> (PyBool False)
               = None"
    by (simp add: CommandLine_format_arg_def)
  from boolean_flags_emit_y_n [of "''gzip_output''" False, THEN conjunct1, THEN mp, OF a] sa
  have ra: "Dcm2nii_format_arg ''gzip_output'' \<lparr>argstr = ''-g'', is_bool = True\<rparr> (PyBool False)
       = Some ''-g n''"
    by simp
  from boolean_flags_emit_y_n [of "''crop''" False, THEN conjunct2, THEN mp, OF b] sb
  have rb: "Dcm2niix_format_arg ''crop'' \<lparr>argstr = ''-x'', is_bool = True\<rparr> (PyBool False)
       = Inr (Some ''-x n'')"
    by simp
  from a b sa sb ra rb base show ?thesis by blast
qed

section \<open>Normalised working directories\<close>

lemma split_on_no_sep: "w \<in> set (split_on sep s) \<Longrightarrow> sep \<notin> set w"
proof (induction s arbitrary: w)
  case Nil
  then show ?case by simp
next
  case (Cons c s)
  obtain v vs where vs: "split_on sep s = v # vs"
    using split_on_not_Nil [of sep s] by (cases "split_on sep s") auto
  with Cons show ?case
    by (auto split: if_splits)
qed

lemma split_on_snoc:
  assumes "sep \<notin> set x"
  shows "split_on sep (a @ sep # x) = split_on sep a @ [x]"
proof (induction a)
  case Nil
  then show ?case using assms by (simp add: split_on_single)
next
  case (Cons c a)
  obtain v vs where vs: "split_on sep a = v # vs"
    using split_on_not_Nil [of sep a] by (cases "split_on sep a") auto
  with Cons show ?case by simp
qed

lemma normpath_comps_snoc:
  assumes "x \<noteq> []" "x \<noteq> ''.''" "x \<noteq> ''..''"
  shows "normpath_comps i (cs @ [x]) acc = normpath_comps i cs acc @ [x]"
  using assms by (induction cs arbitrary: acc) simp_all

lemma normpath_comps_subset:
  "set (normpath_comps i cs acc) \<subseteq> set acc \<union> (set cs - {[]})"
proof (induction cs arbitrary: acc)
  case Nil
  then show ?case by simp
next
  case (Cons c cs)
  have "set (butlast acc) \<subseteq> set acc"
    by (meson in_set_butlastD subsetI)
  with Cons [of acc] Cons [of "acc @ [c]"] Cons [of "butlast acc"] show ?case
    by (auto split: if_splits)
qed

lemma str_join_snoc:
  "str_join sep (ys @ [x]) = (if ys = [] then x else str_join sep ys @ sep @ x)"
  by (induction sep ys rule: str_join.induct) simp_all

lemma str_join_last:
  assumes "ys \<noteq> []" "last ys \<noteq> []"
  shows "str_join sep ys \<noteq> [] \<and> last (str_join sep ys) = last (last ys)"
  using assms by (induction sep ys rule: str_join.induct) auto

lemma str_join_first:
  assumes "ys \<noteq> []" "hd ys \<noteq> []"
  shows "\<exists>rest. str_join sep ys = hd (hd ys) # rest"
  using assms
proof (induction sep ys rule: str_join.induct)
  case (1 sep)
  then show ?case by simp
next
  case (2 sep x)
  then show ?case by (cases x) simp_all
next
  case (3 sep x y ys)
  then show ?case by (cases x) simp_all
qed

lemma normpath_unfold:
  assumes "startswith path ''/''"
  shows "normpath path =
           replicate (if startswith path ''//'' \<and> \<not> startswith path ''///'' then 2 else 1) CHR ''/''
           @ str_join ''/''
               (normpath_comps (if startswith path ''//'' \<and> \<not> startswith path ''///'' then 2 else 1)
                  (split_on CHR ''/'' path) [])"
proof -
  from assms have "path \<noteq> []" by (auto simp: startswith_def)
  with assms show ?thesis
    by (simp add: normpath_def Let_def)
qed


lemma endswith_char: "endswith s [c] \<longleftrightarrow> s \<noteq> [] \<and> last s = c"
proof (cases s rule: rev_cases)
  case Nil
  then show ?thesis by (simp add: endswith_def)
next
  case (snoc ys y)
  then show ?thesis by (simp add: endswith_def)
qed

lemma normpath_comps_plain:
  assumes "x \<noteq> []" "x \<noteq> ''.''" "x \<noteq> ''..''"
  shows "normpath_comps i [x] acc = acc @ [x]"
  using assms by simp

lemma normpath_root:
  assumes x: "CHR ''/'' \<notin> set x" "x \<noteq> []" "last x \<noteq> CHR ''.''"
  shows "normpath (CHR ''/'' # x) = CHR ''/'' # x"
proof -
  have plain: "x \<noteq> ''.''" "x \<noteq> ''..''"
    using x by auto
  obtain c cs where xc: "x = c # cs" "c \<noteq> CHR ''/''"
    using x by (cases x) auto
  have sp: "split_on CHR ''/'' (CHR ''/'' # x) = [[], x]"
    using split_on_append [of "CHR ''/''" "[]" x] split_on_single [OF x(1)] by simp
  have sw: "startswith (CHR ''/'' # x) ''/''" "\<not> startswith (CHR ''/'' # x) ''//''"
    using xc by (simp_all add: startswith_def)
  have "normpath_comps 1 [[], x] [] = [x]"
    using normpath_comps_plain [OF x(2) plain, of 1 "[]"] by simp
  then show ?thesis
    unfolding normpath_unfold [OF sw(1)] using sw(2) by (simp only: sp if_False simp_thms)
      simp
qed

lemma normpath_root2:
  assumes x: "CHR ''/'' \<notin> set x" "x \<noteq> []" "last x \<noteq> CHR ''.''"
  shows "normpath (CHR ''/'' # CHR ''/'' # x) = CHR ''/'' # CHR ''/'' # x"
proof -
  have plain: "x \<noteq> ''.''" "x \<noteq> ''..''"
    using x by auto
  obtain c cs where xc: "x = c # cs" "c \<noteq> CHR ''/''"
    using x by (cases x) auto
  have "split_on CHR ''/'' (CHR ''/'' # x) = [[], x]"
    using split_on_append [of "CHR ''/''" "[]" x] split_on_single [OF x(1)] by simp
  then have sp: "split_on CHR ''/'' (CHR ''/'' # CHR ''/'' # x) = [[], [], x]"
    using split_on_append [of "CHR ''/''" "[]" "CHR ''/'' # x"] by simp
  have sw: "startswith (CHR ''/'' # CHR ''/'' # x) ''/''"
    "startswith (CHR ''/'' # CHR ''/'' # x) ''//''"
    "\<not> startswith (CHR ''/'' # CHR ''/'' # x) ''///''"
    using xc by (simp_all add: startswith_def)
  have "normpath_comps 2 [[], [], x] [] = [x]"
    using normpath_comps_plain [OF x(2) plain, of 2 "[]"] by simp
  then show ?thesis
    unfolding normpath_unfold [OF sw(1)] using sw(2,3) by (simp only: sp if_True simp_thms)
      (simp add: numeral_2_eq_2)
qed

lemma initial_slashes_one:
  assumes "c \<noteq> CHR ''/''"
  shows "\<not> startswith (CHR ''/'' # c # rest) ''//''"
  using assms by (simp add: startswith_def)

lemma initial_slashes_two:
  assumes "c \<noteq> CHR ''/''"
  shows "startswith (CHR ''/'' # CHR ''/'' # c # rest) ''//''"
    "\<not> startswith (CHR ''/'' # CHR ''/'' # c # rest) ''///''"
  using assms by (simp_all add: startswith_def)

lemma normpath_join:
  assumes abs: "startswith cwd ''/''" and norm: "normpath cwd = cwd"
    and x: "CHR ''/'' \<notin> set x" "x \<noteq> []" "last x \<noteq> CHR ''.''"
  shows "normpath (path_join cwd x) = path_join cwd x"
proof -
  define i :: nat where "i = (if startswith cwd ''//'' \<and> \<not> startswith cwd ''///'' then 2 else 1)"
  define comps where "comps = normpath_comps i (split_on CHR ''/'' cwd) []"
  have i12: "i = 1 \<or> i = 2" by (simp add: i_def)
  have cwd_eq: "cwd = replicate i CHR ''/'' @ str_join ''/'' comps"
    using normpath_unfold [OF abs] norm by (simp add: i_def comps_def)
  have plain: "x \<noteq> ''.''" "x \<noteq> ''..''"
    using x by auto
  have x0: "\<not> startswith x ''/''"
    using x by (cases x) (auto simp: startswith_def)
  have comps_ok: "c \<noteq> [] \<and> CHR ''/'' \<notin> set c" if "c \<in> set comps" for c
  proof -
    from that normpath_comps_subset [of i "split_on CHR ''/'' cwd" "[]"]
    have "c \<in> set (split_on CHR ''/'' cwd)" "c \<noteq> []"
      by (auto simp: comps_def)
    then show ?thesis using split_on_no_sep [of c "CHR ''/''" cwd] by simp
  qed
  show ?thesis
  proof (cases "comps = []")
    case True
    from i12 show ?thesis
    proof
      assume "i = 1"
      with cwd_eq True have c: "cwd = ''/''" by simp
      show ?thesis
        using normpath_root [OF x] x0 by (simp add: c path_join_def endswith_def)
    next
      assume "i = 2"
      with cwd_eq True have c: "cwd = ''//''" by (simp add: numeral_2_eq_2)
      show ?thesis
        using normpath_root2 [OF x] x0 by (simp add: c path_join_def endswith_def)
    qed
  next
    case False
    then have mem: "last comps \<in> set comps" "hd comps \<in> set comps" by simp_all
    have sj: "str_join ''/'' comps \<noteq> []" "last (str_join ''/'' comps) = last (last comps)"
      using str_join_last [OF False, of "''/''"] comps_ok [OF mem(1)] by simp_all
    have "last (last comps) \<in> set (last comps)"
      using comps_ok [OF mem(1)] by simp
    with comps_ok [OF mem(1)] have "last (last comps) \<noteq> CHR ''/''"
      by metis
    with sj have "last (str_join ''/'' comps) \<noteq> CHR ''/''"
      by simp
    moreover have "last cwd = last (str_join ''/'' comps)"
      by (subst cwd_eq) (simp add: sj(1))
    moreover have ne: "cwd \<noteq> []"
      by (subst cwd_eq) (simp add: sj(1))
    ultimately have "\<not> endswith cwd ''/''"
      by (simp add: endswith_char)
    with x0 ne have q: "path_join cwd x = cwd @ CHR ''/'' # x"
      by (simp add: path_join_def)
    obtain rest where rest: "str_join ''/'' comps = hd (hd comps) # rest"
      using str_join_first [OF False, of "''/''"] comps_ok [OF mem(2)] by blast
    have "hd (hd comps) \<in> set (hd comps)"
      using comps_ok [OF mem(2)] by simp
    with comps_ok [OF mem(2)] have h0: "hd (hd comps) \<noteq> CHR ''/''"
      by metis
    have absq: "startswith (cwd @ CHR ''/'' # x) ''/''"
      using abs by (cases cwd) (simp_all add: startswith_def)
    have iq: "(if startswith (cwd @ CHR ''/'' # x) ''//''
                  \<and> \<not> startswith (cwd @ CHR ''/'' # x) ''///'' then 2 else 1) = i"
      using i12
    proof
      assume i1: "i = 1"
      then have "cwd @ CHR ''/'' # x = CHR ''/'' # hd (hd comps) # (rest @ CHR ''/'' # x)"
        by (subst cwd_eq) (simp add: rest)
      with initial_slashes_one [OF h0] i1 show ?thesis by simp
    next
      assume i2: "i = 2"
      then have "cwd @ CHR ''/'' # x
                   = CHR ''/'' # CHR ''/'' # hd (hd comps) # (rest @ CHR ''/'' # x)"
        by (subst cwd_eq) (simp add: rest numeral_2_eq_2)
      with initial_slashes_two [OF h0] i2 show ?thesis by simp
    qed
    have "normpath (cwd @ CHR ''/'' # x)
            = replicate i CHR ''/'' @ str_join ''/'' (comps @ [x])"
      unfolding normpath_unfold [OF absq] iq
      by (simp only: split_on_snoc [OF x(1)] normpath_comps_snoc [OF x(2) plain] comps_def)
    also have "\<dots> = replicate i CHR ''/'' @ str_join ''/'' comps @ ''/'' @ x"
      using False by (simp add: str_join_snoc)
    also have "\<dots> = cwd @ CHR ''/'' # x"
      by (subst cwd_eq) simp
    finally show ?thesis by (simp only: q)
  qed
qed

section \<open>MRtrix: the generated names in the working directory\<close>

lemma drop_after_rfind: "c \<notin> set (drop (nat (rfind s c + 1)) s)"
proof (cases "c \<in> set s")
  case False
  then show ?thesis by (meson in_set_dropD)
next
  case True
  let ?k = "length (takeWhile (\<lambda>x. x \<noteq> c) (rev s))"
  have "takeWhile (\<lambda>x. x \<noteq> c) (rev s) \<noteq> rev s"
    using True by (simp add: takeWhile_eq_all_conv)
  then have "?k \<noteq> length (rev s)"
    by (metis takeWhile_eq_take take_all order_refl)
  moreover have "?k \<le> length (rev s)"
    by (rule length_takeWhile_le)
  ultimately have k: "?k < length s"
    by simp
  have "nat (rfind s c + 1) = length s - ?k"
    using True k by (simp add: rfind_def)
  moreover have "drop (length s - ?k) s = rev (take ?k (rev s))"
    by (simp add: rev_take)
  moreover have "take ?k (rev s) = takeWhile (\<lambda>x. x \<noteq> c) (rev s)"
    by (rule takeWhile_eq_take [symmetric])
  ultimately have "drop (nat (rfind s c + 1)) s = rev (takeWhile (\<lambda>x. x \<noteq> c) (rev s))"
    by simp
  then show ?thesis
    by (auto dest: set_takeWhileD)
qed

lemma split_filename_name:
  assumes "split_filename path = (pth, name, ext)"
  shows "CHR ''/'' \<notin> set name"
proof -
  obtain p fname where ps: "path_split path = (p, fname)"
    by (cases "path_split path")
  then have "fname = drop (nat (rfind path CHR ''/'' + 1)) path"
    by (simp add: path_split_def Let_def)
  then have nf: "CHR ''/'' \<notin> set fname"
    using drop_after_rfind [of "CHR ''/''" path] by simp
  have "set name \<subseteq> set fname"
    using assms ps
    by (auto simp: split_filename_def splitext_def Let_def
        split: option.splits if_splits dest: in_set_takeD)
  with nf show ?thesis by blast
qed

lemma abspath_generated:
  assumes "startswith cwd ''/''" "normpath cwd = cwd"
    and "CHR ''/'' \<notin> set x" "x \<noteq> []" "last x \<noteq> CHR ''.''"
  shows "abspath cwd x = path_join cwd x"
proof -
  from assms(3,4) have "\<not> startswith x ''/''"
    by (cases x) (auto simp: startswith_def)
  then show ?thesis
    by (simp add: abspath_def normpath_join [OF assms])
qed

lemma abspath_generated_twice:
  assumes "startswith cwd ''/''" "normpath cwd = cwd"
    and "CHR ''/'' \<notin> set x" "x \<noteq> []" "last x \<noteq> CHR ''.''"
  shows "abspath cwd (path_join (abspath cwd cwd) x) = path_join cwd x"
proof -
  have "abspath cwd cwd = cwd"
    using assms(1,2) by (simp add: abspath_def)
  moreover have "startswith (path_join cwd x) ''/''"
    using assms(1) by (cases cwd) (auto simp: path_join_def startswith_def)
  ultimately show ?thesis
    by (simp add: abspath_def normpath_join [OF assms])
qed

lemma generated_in_cwd:
  assumes "startswith cwd ''/''" "normpath cwd = cwd"
    and "split_filename in_file = (pth, name, ext)"
    and "CHR ''/'' \<notin> set suffix" "suffix \<noteq> []" "last suffix \<noteq> CHR ''.''"
  shows "abspath cwd (name @ suffix) = path_join cwd (name @ suffix)"
    and "abspath cwd (path_join (abspath cwd cwd) (name @ suffix)) = path_join cwd (name @ suffix)"
proof -
  have x: "CHR ''/'' \<notin> set (name @ suffix)" "name @ suffix \<noteq> []"
    "last (name @ suffix) \<noteq> CHR ''.''"
    using split_filename_name [OF assms(3)] assms(4-6) by simp_all
  show "abspath cwd (name @ suffix) = path_join cwd (name @ suffix)"
    by (rule abspath_generated [OF assms(1,2) x])
  show "abspath cwd (path_join (abspath cwd cwd) (name @ suffix)) = path_join cwd (name @ suffix)"
    by (rule abspath_generated_twice [OF assms(1,2) x])
qed

lemma extension_str_plain:
  "CHR ''/'' \<notin> set (''_mrconvert.'' @ extension_str e)"
  "last (''_mrconvert.'' @ extension_str e) \<noteq> CHR ''.''"
  by (cases e; simp)+

text \<open>
  C7, as the code has it. With a normalised absolute working directory, as
  \<^verbatim>\<open>os.getcwd()\<close> returns it, and the output name undefined, every adapter that lists an
  output path lists the base name of its (first) input file, as \<^verbatim>\<open>split_filename\<close> gives
  it, followed by a suffix, joined to the working directory. The suffix is fixed for
  every adapter but \<^verbatim>\<open>MRConvert\<close>, whose suffix ends with the value of its input
  \<^verbatim>\<open>extension\<close>.
\<close>

theorem generated_output_names:
  assumes "startswith cwd ''/''" "normpath cwd = cwd"
    and "split_filename in_file = (pth, name, ext)" "in_file \<noteq> []"
  shows "DWIDenoise_list_outputs cwd None (Some in_file)
           = Inr (path_join cwd (name @ ''_denoised.mif''))
       \<and> DWIBiasCorrect_list_outputs cwd None (Some in_file)
           = Inr (path_join cwd (name @ ''_biascorr.mif''))
       \<and> MRConvert_list_outputs cwd in_file None extension
           = path_join cwd (name @ ''_mrconvert.'' @ extension_str extension)
       \<and> DWI2Tensor_list_outputs cwd (in_file # others) None
           = Inr (path_join cwd (name @ ''_tensor.mif''))
       \<and> Tensor2Vector_list_outputs cwd in_file = path_join cwd (name @ ''_vector.mif'')
       \<and> Tensor2FractionalAnisotropy_list_outputs cwd in_file None
           = path_join cwd (name @ ''_FA.mif'')
       \<and> Tensor2ApparentDiffusion_list_outputs cwd in_file = path_join cwd (name @ ''_ADC.mif'')
       \<and> MRMultiply_list_outputs cwd (in_file # others)
           = Inr (path_join cwd (name @ ''_MRMult.mif''))
       \<and> GenerateWhiteMatterMask_list_outputs cwd in_file
           = path_join cwd (name @ ''_WMProb.mif'')
       \<and> Erode_list_outputs cwd in_file = path_join cwd (name @ ''_erode.mif'')
       \<and> Threshold_list_outputs cwd in_file = path_join cwd (name @ ''_thresh.mif'')
       \<and> MedianFilter3D_list_outputs cwd in_file = path_join cwd (name @ ''_median3D.mif'')
       \<and> MRTransform_list_outputs cwd (in_file # others)
           = Inr (path_join cwd (name @ ''_MRTransform.mif''))"
proof -
  note g = generated_in_cwd [OF assms(1-3)]
  have cwd_ne: "cwd \<noteq> []"
    using assms(1) by (auto simp: startswith_def)
  have a: "DWIDenoise_list_outputs cwd None (Some in_file)
           = Inr (path_join cwd (name @ ''_denoised.mif''))"
    using assms(3,4) cwd_ne g(2) [of "''_denoised.mif''"]
    by (simp add: DWIDenoise_list_outputs_def DWIDenoise_gen_outfilename_def
        DWIDenoise_gen_fname_def fname_presuffix_def truthy_def)
  have b: "DWIBiasCorrect_list_outputs cwd None (Some in_file)
           = Inr (path_join cwd (name @ ''_biascorr.mif''))"
    using assms(3,4) cwd_ne g(2) [of "''_biascorr.mif''"]
    by (simp add: DWIBiasCorrect_list_outputs_def DWIBiasCorrect_gen_outfilename_def
        DWIBiasCorrect_gen_fname_def fname_presuffix_def truthy_def)
  have c: "MRConvert_list_outputs cwd in_file None extension
           = path_join cwd (name @ ''_mrconvert.'' @ extension_str extension)"
    using assms(3) g(1) [of "''_mrconvert.'' @ extension_str extension"]
      extension_str_plain [of extension]
    by (simp add: MRConvert_list_outputs_def MRConvert_gen_outfilename_def)
  have d: "DWI2Tensor_list_outputs cwd (in_file # others) None
           = Inr (path_join cwd (name @ ''_tensor.mif''))"
    using assms(3) g(1) [of "''_tensor.mif''"]
    by (simp add: DWI2Tensor_list_outputs_def DWI2Tensor_gen_outfilename_def)
  have e: "Tensor2Vector_list_outputs cwd in_file = path_join cwd (name @ ''_vector.mif'')"
    using assms(3) g(1) [of "''_vector.mif''"]
    by (simp add: Tensor2Vector_list_outputs_def Tensor2Vector_gen_outfilename_def)
  have f: "Tensor2FractionalAnisotropy_list_outputs cwd in_file None
           = path_join cwd (name @ ''_FA.mif'')"
    using assms(3) g(1) [of "''_FA.mif''"]
    by (simp add: Tensor2FractionalAnisotropy_list_outputs_def
        Tensor2FractionalAnisotropy_gen_outfilename_def)
  have h: "Tensor2ApparentDiffusion_list_outputs cwd in_file = path_join cwd (name @ ''_ADC.mif'')"
    using assms(3) g(1) [of "''_ADC.mif''"]
    by (simp add: Tensor2ApparentDiffusion_list_outputs_def
        Tensor2ApparentDiffusion_gen_outfilename_def)
  have i: "MRMultiply_list_outputs cwd (in_file # others)
           = Inr (path_join cwd (name @ ''_MRMult.mif''))"
    using assms(3) g(1) [of "''_MRMult.mif''"]
    by (simp add: MRMultiply_list_outputs_def MRMultiply_gen_outfilename_def)
  have j: "GenerateWhiteMatterMask_list_outputs cwd in_file
           = path_join cwd (name @ ''_WMProb.mif'')"
    using assms(3) g(1) [of "''_WMProb.mif''"]
    by (simp add: GenerateWhiteMatterMask_list_outputs_def
        GenerateWhiteMatterMask_gen_outfilename_def)
  have k: "Erode_list_outputs cwd in_file = path_join cwd (name @ ''_erode.mif'')"
    using assms(3) g(1) [of "''_erode.mif''"]
    by (simp add: Erode_list_outputs_def Erode_gen_outfilename_def)
  have l: "Threshold_list_outputs cwd in_file = path_join cwd (name @ ''_thresh.mif'')"
    using assms(3) g(1) [of "''_thresh.mif''"]
    by (simp add: Threshold_list_outputs_def Threshold_gen_outfilename_def)
  have m: "MedianFilter3D_list_outputs cwd in_file = path_join cwd (name @ ''_median3D.mif'')"
    using assms(3) g(1) [of "''_median3D.mif''"]
    by (simp add: MedianFilter3D_list_outputs_def MedianFilter3D_gen_outfilename_def)
  have n: "MRTransform_list_outputs cwd (in_file # others)
           = Inr (path_join cwd (name @ ''_MRTransform.mif''))"
    using assms(3) g(1) [of "''_MRTransform.mif''"]
    by (simp add: MRTransform_list_outputs_def MRTransform_gen_outfilename_def)
  from a b c d e f h i j k l m n show ?thesis by blast
qed

theorem generated_output_names_witness:
  "startswith ''/home/user/work'' ''/''
   \<and> normpath ''/home/user/work'' = ''/home/user/work''
   \<and> split_filename ''/data/sub01/dwi.mif'' = (''/data/sub01'', ''dwi'', ''.mif'')
   \<and> ''/data/sub01/dwi.mif'' \<noteq> []
   \<and> DWIDenoise_list_outputs ''/home/user/work'' None (Some ''/data/sub01/dwi.mif'')
       = Inr ''/home/user/work/dwi_denoised.mif''
   \<and> DWI2Tensor_list_outputs ''/home/user/work'' [''/data/sub01/dwi.mif''] None
       = Inr ''/home/user/work/dwi_tensor.mif''
   \<and> Threshold_list_outputs ''/home/user/work'' ''/data/sub01/dwi.mif''
       = ''/home/user/work/dwi_thresh.mif''
   \<and> MRConvert_list_outputs ''/home/user/work'' ''/data/sub01/dwi.mif'' None Ext_mif
       = ''/home/user/work/dwi_mrconvert.mif''"
proof -
  have a: "startswith ''/home/user/work'' ''/''"
    by code_simp
  have b: "normpath ''/home/user/work'' = ''/home/user/work''"
    by code_simp
  have c: "split_filename ''/data/sub01/dwi.mif'' = (''/data/sub01'', ''dwi'', ''.mif'')"
    by code_simp
  have d: "''/data/sub01/dwi.mif'' \<noteq> []"
    by simp
  have j: "path_join ''/home/user/work'' ''dwi_denoised.mif'' = ''/home/user/work/dwi_denoised.mif''"
    "path_join ''/home/user/work'' ''dwi_tensor.mif'' = ''/home/user/work/dwi_tensor.mif''"
    "path_join ''/home/user/work'' ''dwi_thresh.mif'' = ''/home/user/work/dwi_thresh.mif''"
    "path_join ''/home/user/work'' ''dwi_mrconvert.mif'' = ''/home/user/work/dwi_mrconvert.mif''"
    by code_simp+
  from generated_output_names [OF a b c d, of Ext_mif "[]"] j
  have "DWIDenoise_list_outputs ''/home/user/work'' None (Some ''/data/sub01/dwi.mif'')
       = Inr ''/home/user/work/dwi_denoised.mif''
   \<and> DWI2Tensor_list_outputs ''/home/user/work'' [''/data/sub01/dwi.mif''] None
       = Inr ''/home/user/work/dwi_tensor.mif''
   \<and> Threshold_list_outputs ''/home/user/work'' ''/data/sub01/dwi.mif''
       = ''/home/user/work/dwi_thresh.mif''
   \<and> MRConvert_list_outputs ''/home/user/work'' ''/data/sub01/dwi.mif'' None Ext_mif
       = ''/home/user/work/dwi_mrconvert.mif''"
    by simp
  with a b c d show ?thesis by blast
qed

text \<open>
  The claim as it is written fails for \<^verbatim>\<open>MRConvert\<close>: with the same input file and no output
  name, the listed path changes with the input \<^verbatim>\<open>extension\<close>.
\<close>

theorem generated_output_names_counterexample:
  "MRConvert_list_outputs ''/home/user/work'' ''dwi_FA.mif'' None Ext_mif
       = ''/home/user/work/dwi_FA_mrconvert.mif''
   \<and> MRConvert_list_outputs ''/home/user/work'' ''dwi_FA.mif'' None Ext_nii
       = ''/home/user/work/dwi_FA_mrconvert.nii''"
  by code_simp

end
